theory Spec2Isabelle
  imports Complex_Main "HOL-Library.Sublist"
begin

section \<open>Python values shared by both modules\<close>

text \<open>
  Python strings are modelled as HOL strings, a character standing for a code point
  below 256. \<open>str(n)\<close> and the \<open>{n}\<close> of an f-string render an integer in decimal,
  with a leading minus sign for a negative one.
\<close>

definition digit_char :: "nat \<Rightarrow> char" where
  "digit_char d = ''0123456789'' ! d"

fun str_nat :: "nat \<Rightarrow> string" where
  "str_nat n = (if n < 10 then [digit_char n] else str_nat (n div 10) @ [digit_char (n mod 10)])"

declare str_nat.simps [simp del]

definition str_int :: "int \<Rightarrow> string" where
  "str_int i = (if i < 0 then CHR ''-'' # str_nat (nat (- i)) else str_nat (nat i))"

text \<open>The exceptions that the modelled code can raise.\<close>

datatype py_error = ImportError | TypeError | KeyError

section \<open>cache/cache\_factory.py\<close>

text \<open>\<open>seed: Union[str, int]\<close>, formatted into the disk path by an f-string.\<close>

datatype seed = SeedStr string | SeedInt int

fun format_seed :: "seed \<Rightarrow> string" where
  "format_seed (SeedStr s) = s"
| "format_seed (SeedInt i) = str_int i"

text \<open>
  \<open>CosmosDBConfig\<close> is a \<open>TypedDict\<close> with \<open>total=False\<close>: any of its keys may be
  missing. It is kept as an association list, so that its truth value (non-empty) and the
  membership test \<open>key in cosmosdb_config\<close> compute.
\<close>

datatype cosmos_value = CStr string | CInt int | CNone | CClient

type_synonym cosmosdb_config = "(string \<times> cosmos_value) list"

text \<open>
  The three cache classes live in modules of their own; only their constructor calls
  are part of the factory, so a cache is the record of the call that built it.
\<close>

datatype cache =
    RedisCache seed string
  | CosmosDBCache seed cosmosdb_config
  | DiskCache string

datatype backend = Redis | Cosmos | Disk

text \<open>
  What the factory does besides returning: the local imports it attempts, the warnings
  it logs, and the constructors it calls, in program order.
\<close>

datatype effect = TryImport backend | Warning string | Construct cache

text \<open>
  Which client libraries are installed. Without the Redis client library
  \<open>from .redis_cache import RedisCache\<close> raises \<open>ImportError\<close>. Without the Cosmos
  client library \<open>azure.cosmos\<close> every import of it raises \<open>ImportError\<close>: the one of
  line 7, at the top level of this module, and the one behind
  \<open>from .cosmos_db_cache import CosmosDBCache\<close> of line 84.
\<close>

record installation =
  redis_available :: bool
  cosmos_available :: bool

definition redis_warning :: string where
  "redis_warning =
     ''RedisCache is not available. Checking other cache options. The last fallback is DiskCache.''"

definition cosmos_warning :: string where
  "cosmos_warning = ''CosmosDBCache is not available. Fallback to DiskCache.''"

text \<open>\<open>if redis_url:\<close> on an \<open>Optional[str]\<close>: \<open>None\<close> and the empty string are false.\<close>

fun truthy_str :: "string option \<Rightarrow> bool" where
  "truthy_str None = False"
| "truthy_str (Some u) = (u \<noteq> [])"

text \<open>\<open>key in cosmosdb_config\<close>\<close>

definition has_key :: "cosmosdb_config \<Rightarrow> string \<Rightarrow> bool" where
  "has_key cfg k = (map_of cfg k \<noteq> None)"

definition required_keys :: "string list" where
  "required_keys = [''connection_string'', ''database_id'', ''container_id'']"

text \<open>
  \<open>cosmosdb_config and all(key in cosmosdb_config for key in [...])\<close>: \<open>None\<close> and the
  empty dictionary are false.
\<close>

fun cosmos_complete :: "cosmosdb_config option \<Rightarrow> bool" where
  "cosmos_complete None = False"
| "cosmos_complete (Some cfg) = (cfg \<noteq> [] \<and> list_all (has_key cfg) required_keys)"

definition disk_path :: "string \<Rightarrow> seed \<Rightarrow> string" where
  "disk_path cache_path_root sd = ''./'' @ cache_path_root @ ''/'' @ format_seed sd"

text \<open>
  Lines 70-78. \<open>Some\<close> is the \<open>return\<close> of the guarded block; \<open>None\<close> is control
  reaching the next statement.
\<close>

definition redis_stage ::
  "installation \<Rightarrow> seed \<Rightarrow> string option \<Rightarrow> effect list \<times> cache option" where
  "redis_stage inst sd redis_url =
     (case redis_url of
        None \<Rightarrow> ([], None)
      | Some u \<Rightarrow>
          if truthy_str redis_url then
            (if redis_available inst
             then ([TryImport Redis, Construct (RedisCache sd u)], Some (RedisCache sd u))
             else ([TryImport Redis, Warning redis_warning], None))
          else ([], None))"

text \<open>Lines 80-88.\<close>

definition cosmos_stage ::
  "installation \<Rightarrow> seed \<Rightarrow> cosmosdb_config option \<Rightarrow> effect list \<times> cache option" where
  "cosmos_stage inst sd cosmosdb_config =
     (case cosmosdb_config of
        None \<Rightarrow> ([], None)
      | Some cfg \<Rightarrow>
          if cosmos_complete cosmosdb_config then
            (if cosmos_available inst
             then ([TryImport Cosmos, Construct (CosmosDBCache sd cfg)], Some (CosmosDBCache sd cfg))
             else ([TryImport Cosmos, Warning cosmos_warning], None))
          else ([], None))"

text \<open>Lines 70-91: the two stages in order, then the unconditional disk cache.\<close>

definition cache_factory ::
  "installation \<Rightarrow> seed \<Rightarrow> string option \<Rightarrow> string \<Rightarrow> cosmosdb_config option
     \<Rightarrow> effect list \<times> cache" where
  "cache_factory inst sd redis_url cache_path_root cosmosdb_config =
     (case redis_stage inst sd redis_url of
        (es1, Some c) \<Rightarrow> (es1, c)
      | (es1, None) \<Rightarrow>
          (case cosmos_stage inst sd cosmosdb_config of
             (es2, Some c) \<Rightarrow> (es1 @ es2, c)
           | (es2, None) \<Rightarrow>
               (let c = DiskCache (disk_path cache_path_root sd)
                in (es1 @ es2 @ [Construct c], c))))"

text \<open>
  The top level of the module. Line 7, \<open>from azure.cosmos import CosmosClient\<close>, stands
  outside any guarded block: without the Cosmos client library, importing the module
  raises \<open>ImportError\<close> and the factory cannot be called. (Line 2,
  \<open>pip install azure-cosmos\<close>, is a shell command left under the comment of line 1 and
  no Python statement; it is read with that comment.)
\<close>

definition import_module :: "installation \<Rightarrow> py_error + unit" where
  "import_module inst = (if cosmos_available inst then Inr () else Inl ImportError)"

text \<open>What a caller does: import the module, then call the factory.\<close>

definition imported_cache_factory ::
  "installation \<Rightarrow> seed \<Rightarrow> string option \<Rightarrow> string \<Rightarrow> cosmosdb_config option
     \<Rightarrow> py_error + effect list \<times> cache" where
  "imported_cache_factory inst sd redis_url cache_path_root cosmosdb_config =
     (case import_module inst of
        Inl e \<Rightarrow> Inl e
      | Inr _ \<Rightarrow> Inr (cache_factory inst sd redis_url cache_path_root cosmosdb_config))"

text \<open>The caches a run constructed, read off its effects.\<close>

fun constructed :: "effect list \<Rightarrow> cache list" where
  "constructed [] = []"
| "constructed (Construct c # es) = c # constructed es"
| "constructed (_ # es) = constructed es"

section \<open>agentchat/contrib/web\_surfer.py\<close>

subsection \<open>Python built-ins used by the agent\<close>

text \<open>
  \<open>str.isspace\<close> on the code points below 256: tab to carriage return, the four
  separators \<open>0x1C\<close> to \<open>0x1F\<close>, the space, \<open>0x85\<close> and the no-break space.
\<close>

definition isspace :: "char \<Rightarrow> bool" where
  "isspace c \<longleftrightarrow>
     c \<in> set [CHR 0x09, CHR 0x0A, CHR 0x0B, CHR 0x0C, CHR 0x0D, CHR 0x1C, CHR 0x1D,
              CHR 0x1E, CHR 0x1F, CHR 0x20, CHR 0x85, CHR 0xA0]"

text \<open>\<open>s.strip()\<close>: leading and trailing whitespace removed.\<close>

definition strip :: "string \<Rightarrow> string" where
  "strip s = rev (dropWhile isspace (rev (dropWhile isspace s)))"

text \<open>
  \<open>round(x)\<close> of a float gives the nearest integer, a tie going to the even one.
  Clock readings are taken as real numbers.
\<close>

definition py_round :: "real \<Rightarrow> int" where
  "py_round x =
     (let f = \<lfloor>x\<rfloor>; d = x - of_int f
      in if d < 1 / 2 then f else if 1 / 2 < d then f + 1 else if even f then f else f + 1)"

text \<open>
  A dictionary with string keys whose values are strings or \<open>None\<close>, in insertion
  order. \<open>d[k]\<close> raises \<open>KeyError\<close> for a missing key.
\<close>

type_synonym pydict = "(string \<times> string option) list"

definition getitem :: "pydict \<Rightarrow> string \<Rightarrow> py_error + string option" where
  "getitem d k = (case map_of d k of None \<Rightarrow> Inl KeyError | Some v \<Rightarrow> Inr v)"

subsection \<open>The browser\<close>

text \<open>
  \<open>SimpleTextBrowser\<close> is defined in \<open>browser_utils\<close>. The agent reads the
  attributes below and calls five of its methods; the methods are parameters of the
  model, each returning the browser it leaves behind.
\<close>

record browser =
  address :: string
  page_title :: "string option"
  page_content :: string
  viewport :: string
  viewport_current_page :: int
  viewport_pages :: "(nat \<times> nat) list"
  history :: "(string \<times> real) list"

record browser_methods =
  visit_page :: "browser \<Rightarrow> string \<Rightarrow> browser"
  page_up :: "browser \<Rightarrow> browser"
  page_down :: "browser \<Rightarrow> browser"
  find_on_page :: "browser \<Rightarrow> string \<Rightarrow> browser \<times> string option"
  find_next :: "browser \<Rightarrow> browser \<times> string option"

subsection \<open>\<open>_browser_state\<close> (lines 120-136)\<close>

text \<open>
  The loop \<open>for i in range(len(history)-2, -1, -1)\<close> with its \<open>break\<close>:
  \<open>scan_history h a k\<close> visits the indices \<open>k-1\<close> down to \<open>0\<close> and gives the
  time stamp of the first entry whose address is \<open>a\<close>; it starts at
  \<open>k = len(history) - 1\<close>, which is \<open>0\<close> for an empty history too.
\<close>

fun scan_history :: "(string \<times> real) list \<Rightarrow> string \<Rightarrow> nat \<Rightarrow> real option" where
  "scan_history h a 0 = None"
| "scan_history h a (Suc i) =
     (if fst (h ! i) = a then Some (snd (h ! i)) else scan_history h a i)"

definition visited_line :: "real \<Rightarrow> real \<Rightarrow> string" where
  "visited_line now t =
     ''You previously visited this page '' @ str_int (py_round (now - t)) @ '' seconds ago.\<newline>''"

definition viewport_line :: "int \<Rightarrow> nat \<Rightarrow> string" where
  "viewport_line current_page total_pages =
     ''Viewport position: Showing page '' @ str_int (current_page + 1) @ '' of ''
       @ str_int (int total_pages) @ ''.\<newline>''"

text \<open>\<open>now\<close> is what \<open>time.time()\<close> returns during the call.\<close>

definition browser_state :: "real \<Rightarrow> browser \<Rightarrow> string \<times> string" where
  "browser_state now b =
     (let header = ''Address: '' @ address b @ ''\<newline>'';
          header = (case page_title b of
                      None \<Rightarrow> header
                    | Some title \<Rightarrow> header @ ''Title: '' @ title @ ''\<newline>'');
          current_page = viewport_current_page b;
          total_pages = length (viewport_pages b);
          header = (case scan_history (history b) (address b) (length (history b) - 1) of
                      None \<Rightarrow> header
                    | Some t \<Rightarrow> header @ visited_line now t);
          header = header @ viewport_line current_page total_pages
      in (header, viewport b))"

subsection \<open>The tools (lines 143-238)\<close>

definition separator :: string where
  "separator = ''\<newline>=======================\<newline>''"

text \<open>A tool takes the browser and gives the browser it leaves and the string it returns.\<close>

definition informational_search ::
  "browser_methods \<Rightarrow> real \<Rightarrow> browser \<Rightarrow> string \<Rightarrow> browser \<times> string" where
  "informational_search m now b query =
     (let b1 = visit_page m b (''bing: '' @ query);
          (header, content) = browser_state now b1
      in (b1, strip header @ separator @ content))"

text \<open>
  \<open>re.search(r"\[.*?\]\((http.*?)\)", s)\<close>, group 1. A dot matches anything but a line
  feed, and both stars are lazy.

  \<open>match_target\<close> is \<open>.*?\)\<close>: the text up to the first closing parenthesis, if no line
  feed comes before it.
\<close>

fun match_target :: "string \<Rightarrow> string option" where
  "match_target [] = None"
| "match_target (c # cs) =
     (if c = CHR '')'' then Some []
      else if c = CHR 0x0A then None
      else map_option ((#) c) (match_target cs))"

text \<open>
  \<open>match_label\<close> is \<open>.*?\]\((http.*?)\)\<close>, what follows the opening bracket: the
  lazy star gives way to \<open>](http\<close> at the first place where the rest of the pattern
  matches, and cannot cross a line feed.
\<close>

fun match_label :: "string \<Rightarrow> string option" where
  "match_label [] = None"
| "match_label (c # cs) =
     (case (if take 6 (c # cs) = ''](http'' then match_target (drop 6 (c # cs)) else None) of
        Some t \<Rightarrow> Some (''http'' @ t)
      | None \<Rightarrow> if c = CHR 0x0A then None else match_label cs)"

text \<open>The search tries every start position from the left.\<close>

fun re_search_link :: "string \<Rightarrow> string option" where
  "re_search_link [] = None"
| "re_search_link (c # cs) =
     (case (if c = CHR ''['' then match_label cs else None) of
        Some u \<Rightarrow> Some u
      | None \<Rightarrow> re_search_link cs)"

definition navigational_search ::
  "browser_methods \<Rightarrow> real \<Rightarrow> browser \<Rightarrow> string \<Rightarrow> browser \<times> string" where
  "navigational_search m now b query =
     (let b1 = visit_page m b (''bing: '' @ query);
          b2 = (case re_search_link (page_content b1) of
                  Some target \<Rightarrow> visit_page m b1 target
                | None \<Rightarrow> b1);
          (header, content) = browser_state now b2
      in (b2, strip header @ separator @ content))"

text \<open>
  Lines 165-172, the function registered as \<open>visit_page\<close>, and lines 174-181, the
  function registered as \<open>download_file\<close>. Both are called \<open>_visit_page\<close> in the source.
\<close>

definition tool_visit_page ::
  "browser_methods \<Rightarrow> real \<Rightarrow> browser \<Rightarrow> string \<Rightarrow> browser \<times> string" where
  "tool_visit_page m now b url =
     (let b1 = visit_page m b url;
          (header, content) = browser_state now b1
      in (b1, strip header @ separator @ content))"

definition tool_download_file ::
  "browser_methods \<Rightarrow> real \<Rightarrow> browser \<Rightarrow> string \<Rightarrow> browser \<times> string" where
  "tool_download_file m now b url =
     (let b1 = visit_page m b url;
          (header, content) = browser_state now b1
      in (b1, strip header @ separator @ content))"

definition tool_page_up :: "browser_methods \<Rightarrow> real \<Rightarrow> browser \<Rightarrow> browser \<times> string" where
  "tool_page_up m now b =
     (let b1 = page_up m b;
          (header, content) = browser_state now b1
      in (b1, strip header @ separator @ content))"

definition tool_page_down :: "browser_methods \<Rightarrow> real \<Rightarrow> browser \<Rightarrow> browser \<times> string" where
  "tool_page_down m now b =
     (let b1 = page_down m b;
          (header, content) = browser_state now b1
      in (b1, strip header @ separator @ content))"

definition find_on_page_ctrl_f ::
  "browser_methods \<Rightarrow> real \<Rightarrow> browser \<Rightarrow> string \<Rightarrow> browser \<times> string" where
  "find_on_page_ctrl_f m now b search_string =
     (let (b1, find_result) = find_on_page m b search_string;
          (header, content) = browser_state now b1
      in case find_result of
           None \<Rightarrow>
             (b1, strip header @ ''\<newline>=======================\<newline>The search string ''
                  @ [CHR 0x27] @ search_string @ [CHR 0x27] @ '' was not found on this page.'')
         | Some _ \<Rightarrow> (b1, strip header @ separator @ content))"

definition tool_find_next :: "browser_methods \<Rightarrow> real \<Rightarrow> browser \<Rightarrow> browser \<times> string" where
  "tool_find_next m now b =
     (let (b1, find_result) = find_next m b;
          (header, content) = browser_state now b1
      in case find_result of
           None \<Rightarrow>
             (b1, strip header
                  @ ''\<newline>=======================\<newline>The search string was not found on this page.'')
         | Some _ \<Rightarrow> (b1, strip header @ separator @ content))"

subsection \<open>\<open>_read_page_and_answer\<close> (lines 247-298)\<close>

definition is_newline :: "char \<Rightarrow> bool" where
  "is_newline c \<longleftrightarrow> c = CHR 0x0D \<or> c = CHR 0x0A"

text \<open>
  \<open>re.split(r"([\r\n]+)", s)\<close>: the text before the first run of line breaks, the run
  itself (the group is captured, so the separators are kept), and so on; the list always
  ends with a text piece, which may be empty.
\<close>

function re_split_newlines :: "string \<Rightarrow> string list" where
  "re_split_newlines s =
     (if dropWhile (\<lambda>c. \<not> is_newline c) s = [] then [s]
      else takeWhile (\<lambda>c. \<not> is_newline c) s
           # takeWhile is_newline (dropWhile (\<lambda>c. \<not> is_newline c) s)
           # re_split_newlines (dropWhile is_newline (dropWhile (\<lambda>c. \<not> is_newline c) s)))"
  by pat_completeness auto
termination
proof (relation "measure length")
  show "wf (measure length)" by simp
next
  fix s :: string
  assume ne: "dropWhile (\<lambda>c. \<not> is_newline c) s \<noteq> []"
  let ?r = "dropWhile (\<lambda>c. \<not> is_newline c) s"
  from ne have "is_newline (hd ?r)" using hd_dropWhile [of "\<lambda>c. \<not> is_newline c" s] by simp
  with ne have "dropWhile is_newline ?r = dropWhile is_newline (tl ?r)"
    by (cases ?r) simp_all
  then have "length (dropWhile is_newline ?r) = length (dropWhile is_newline (tl ?r))"
    by (rule arg_cong)
  also have "\<dots> \<le> length (tl ?r)" by (rule length_dropWhile_le)
  also from ne have "\<dots> < length ?r" by (cases ?r) simp_all
  also have "\<dots> \<le> length s" by (rule length_dropWhile_le)
  finally show "(dropWhile is_newline ?r, s) \<in> measure length" by simp
qed

declare re_split_newlines.simps [simp del]

definition token_limit :: int where
  "token_limit = 32000"

text \<open>
  The loop of lines 270-275, the buffer so far and the lines still to come.
  \<open>count_token\<close> comes from \<open>token_count_utils\<close> and is a parameter.
\<close>

fun fill_buffer :: "(string \<Rightarrow> int) \<Rightarrow> string \<Rightarrow> string list \<Rightarrow> string" where
  "fill_buffer count_token buffer [] = buffer"
| "fill_buffer count_token buffer (line # lines) =
     (let tokens = count_token (buffer @ line)
      in if tokens + 1024 > token_limit then buffer
         else fill_buffer count_token (buffer @ line) lines)"

definition summarizer_system_message :: pydict where
  "summarizer_system_message =
     [(''role'', Some ''system''),
      (''content'',
       Some ''You are a helpful assistant that can summarize long documents to answer question.'')]"

definition summary_prompt :: "string option \<Rightarrow> string \<Rightarrow> string" where
  "summary_prompt question buffer =
     (case question of
        None \<Rightarrow>
          ''Please summarize the following into one or two paragraph:\<newline>\<newline>'' @ buffer
      | Some q \<Rightarrow>
          ''Please summarize the following into one or two paragraphs with respect to ''
            @ [CHR 0x27] @ q @ [CHR 0x27] @ '':\<newline>\<newline>'' @ buffer)"

text \<open>
  \<open>summarize\<close> stands for the two calls on the summarization client (lines 296-298)
  and gives the string returned. The second component of the result lists the message
  lists sent to the client, so that a run without a call is told from one with a call.
\<close>

definition read_page_and_answer ::
  "browser_methods \<Rightarrow> (string \<Rightarrow> int) \<Rightarrow> (pydict list \<Rightarrow> string) \<Rightarrow> browser
     \<Rightarrow> string option \<Rightarrow> string option \<Rightarrow> browser \<times> pydict list list \<times> string" where
  "read_page_and_answer m count_token summarize b question url =
     (let b1 = (case url of
                  None \<Rightarrow> b
                | Some u \<Rightarrow> if u \<noteq> address b then visit_page m b u else b);
          buffer = fill_buffer count_token [] (re_split_newlines (page_content b1));
          buffer = strip buffer
      in if length buffer = 0 then (b1, [], ''Nothing to summarize.'')
         else
           (let messages = [summarizer_system_message];
                prompt = summary_prompt question buffer;
                messages = messages @ [[(''role'', Some ''user''), (''content'', Some prompt)]]
            in (b1, [messages], summarize messages)))"

definition summarize_page ::
  "browser_methods \<Rightarrow> (string \<Rightarrow> int) \<Rightarrow> (pydict list \<Rightarrow> string) \<Rightarrow> browser
     \<Rightarrow> string option \<Rightarrow> browser \<times> pydict list list \<times> string" where
  "summarize_page m count_token summarize b url =
     read_page_and_answer m count_token summarize b None url"

subsection \<open>\<open>_create_summarizer_client\<close> (lines 89-114) and the tool registry\<close>

text \<open>
  An LLM configuration is \<open>None\<close>, \<open>False\<close> or a dictionary. Of the dictionary the
  method reads the key \<open>config_list\<close> only, a list of dictionaries with string values;
  the other entries are carried along.
\<close>

type_synonym model_config = "(string \<times> string) list"

record llm_dict =
  config_list :: "model_config list option"
  other_entries :: "(string \<times> string) list"

datatype llm_config = LLMNone | LLMFalse | LLMDict llm_dict

text \<open>
  Modelled from the spec: \<open>filter_config\<close> of \<open>oai/openai_utils.py\<close>, which is not
  among the sources. The spec has the configuration list filtered "to a small
  preferred-model allow-list": a configuration is kept when, for each key of the filter,
  it has a value and the value is in the list given for that key.
\<close>

definition filter_config ::
  "model_config list \<Rightarrow> (string \<times> string list) list \<Rightarrow> model_config list" where
  "filter_config cl filter_dict =
     filter (\<lambda>c. list_all (\<lambda>(k, allowed). case map_of c k of
                                             None \<Rightarrow> False
                                           | Some v \<Rightarrow> v \<in> set allowed) filter_dict) cl"

definition preferred_models :: "(string \<times> string list) list" where
  "preferred_models =
     [(''model'', [''gpt-3.5-turbo-1106'', ''gpt-3.5-turbo-16k-0613'', ''gpt-3.5-turbo-16k''])]"

definition summarizer_warning :: string where
  "summarizer_warning =
     ''The summarizer did not find the preferred model (gpt-3.5-turbo-16k) in the config list. ''
     @ ''Semantic operations on webpages (summarization or Q&A) might be costly or ineffective.''"

text \<open>The client is the record of the constructor call \<open>OpenAIWrapper(**config)\<close>.\<close>

datatype client = OpenAIWrapper llm_dict

record summarizer =
  summarizer_llm_config :: llm_config
  summarization_client :: "client option"

type_synonym config_filter =
  "model_config list \<Rightarrow> (string \<times> string list) list \<Rightarrow> model_config list"

text \<open>
  Lines 91-111: the warnings logged and the value of \<open>self.summarizer_llm_config\<close>.
  The function bound to the imported name \<open>filter_config\<close> is the first argument.
\<close>

definition resolve_summarizer_llm_config ::
  "config_filter \<Rightarrow> llm_config \<Rightarrow> llm_config \<Rightarrow> string list \<times> llm_config" where
  "resolve_summarizer_llm_config filter_cfg summarizer_cfg llm_cfg =
     (case summarizer_cfg of
        LLMNone \<Rightarrow>
          (case llm_cfg of
             LLMNone \<Rightarrow> ([], LLMNone)
           | LLMFalse \<Rightarrow> ([], LLMFalse)
           | LLMDict d \<Rightarrow>
               (case config_list d of
                  None \<Rightarrow> ([], LLMDict d)
                | Some cl \<Rightarrow>
                    (let preferred = filter_cfg cl preferred_models
                     in if length preferred = 0 then ([summarizer_warning], LLMDict d)
                        else ([], LLMDict (d\<lparr>config_list := Some preferred\<rparr>)))))
      | _ \<Rightarrow> ([], summarizer_cfg))"

text \<open>
  Line 114. \<open>OpenAIWrapper(**None)\<close> raises \<open>TypeError\<close>: the argument after \<open>**\<close>
  must be a mapping.
\<close>

definition create_summarizer_client ::
  "config_filter \<Rightarrow> llm_config \<Rightarrow> llm_config \<Rightarrow> string list \<times> (py_error + summarizer)" where
  "create_summarizer_client filter_cfg summarizer_cfg llm_cfg =
     (let (warnings, cfg) = resolve_summarizer_llm_config filter_cfg summarizer_cfg llm_cfg
      in (warnings,
          case cfg of
            LLMFalse \<Rightarrow> Inr \<lparr>summarizer_llm_config = cfg, summarization_client = None\<rparr>
          | LLMDict d \<Rightarrow>
              Inr \<lparr>summarizer_llm_config = cfg, summarization_client = Some (OpenAIWrapper d)\<rparr>
          | LLMNone \<Rightarrow> Inl TypeError))"

text \<open>
  The names registered by \<open>_register_functions\<close>, in order; the two summarization tools
  are registered only with a summarization client (line 240).
\<close>

definition register_functions :: "client option \<Rightarrow> string list" where
  "register_functions cl =
     [''informational_web_search'', ''navigational_web_search'', ''visit_page'',
      ''download_file'', ''page_up'', ''page_down'', ''find_on_page_ctrl_f'', ''find_next'']
     @ (if cl \<noteq> None then [''read_page_and_answer'', ''summarize_page''] else [])"

text \<open>
  What \<open>__init__\<close> (lines 57-81) leaves of interest here: the summarizer, and the tools
  registered, which are none unless \<open>llm_config\<close> is a dictionary (line 80).
\<close>

record surfer =
  surfer_summarizer :: summarizer
  registered :: "string list"

definition init_surfer ::
  "config_filter \<Rightarrow> llm_config \<Rightarrow> llm_config \<Rightarrow> string list \<times> (py_error + surfer)" where
  "init_surfer filter_cfg llm_cfg summarizer_cfg =
     (case create_summarizer_client filter_cfg summarizer_cfg llm_cfg of
        (warnings, Inl e) \<Rightarrow> (warnings, Inl e)
      | (warnings, Inr s) \<Rightarrow>
          (warnings,
           Inr \<lparr>surfer_summarizer = s,
                registered = (if llm_cfg \<noteq> LLMNone \<and> llm_cfg \<noteq> LLMFalse
                              then register_functions (summarization_client s) else [])\<rparr>))"

subsection \<open>\<open>generate_surfer_reply\<close> (lines 340-350)\<close>

text \<open>
  \<open>generate_reply\<close> of the inner user proxy gives \<open>None\<close>, a string or a message
  dictionary. The resolution step takes the last message of the inner assistant and that
  reply; the conversation that produces them is run by \<open>ConversableAgent\<close>.
\<close>

datatype reply = ReplyNone | ReplyStr string | ReplyDict pydict

text \<open>\<open>r["content"]\<close> for a reply that is not \<open>None\<close>: a string cannot be indexed by a string.\<close>

fun reply_content :: "reply \<Rightarrow> py_error + string option" where
  "reply_content ReplyNone = Inl TypeError"
| "reply_content (ReplyStr s) = Inl TypeError"
| "reply_content (ReplyDict d) = getitem d ''content''"

definition generate_surfer_reply ::
  "pydict option \<Rightarrow> reply \<Rightarrow> py_error + bool \<times> string option" where
  "generate_surfer_reply agent_reply proxy_reply =
     (if proxy_reply = ReplyStr [] then
        (case agent_reply of
           None \<Rightarrow> Inr (True, None)
         | Some a \<Rightarrow> map_sum id (Pair True) (getitem a ''content''))
      else
        (if proxy_reply = ReplyNone then Inr (True, None)
         else map_sum id (Pair True) (reply_content proxy_reply)))"

text \<open>A complete Cosmos configuration, for the examples below.\<close>

definition full_cosmos :: cosmosdb_config where
  "full_cosmos = [(''connection_string'', CStr ''cs''), (''database_id'', CStr ''db''),
            (''container_id'', CStr ''ct'')]"

subsection \<open>Example values\<close>

text \<open>
  A browser on a page it has visited twice before, and browser methods that find nothing;
  \<open>visit_page\<close> moves to the address given and records the visit at time 1000.
\<close>

definition example_browser :: browser where
  "example_browser =
     \<lparr>address = ''https://example.com'', page_title = Some ''Example'',
      page_content = ''Hello\<newline>World'', viewport = ''Hello\<newline>World'',
      viewport_current_page = 0, viewport_pages = [(0, 11)],
      history = [(''https://example.com'', 100), (''https://example.org'', 200),
                 (''https://example.com'', 300), (''https://example.com'', 400)]\<rparr>"

definition example_methods :: browser_methods where
  "example_methods =
     \<lparr>visit_page = (\<lambda>b u. b\<lparr>address := u, page_title := None,
                                 history := history b @ [(u, 1000)]\<rparr>),
      page_up = (\<lambda>b. b), page_down = (\<lambda>b. b),
      find_on_page = (\<lambda>b s. (b, None)), find_next = (\<lambda>b. (b, None))\<rparr>"

definition gpt4_only :: llm_dict where
  "gpt4_only = \<lparr>config_list = Some [[(''model'', ''gpt-4''), (''api_key'', ''k'')]],
                other_entries = [(''timeout'', ''600'')]\<rparr>"

definition mixed_models :: llm_dict where
  "mixed_models =
     \<lparr>config_list = Some [[(''model'', ''gpt-4'')], [(''model'', ''gpt-3.5-turbo-16k'')]],
      other_entries = []\<rparr>"

text \<open>
  A token counter that counts characters, a summarizer that always answers
  \<open>summary\<close>, a page with blanks around its text, a page of blanks only, and a page of
  two lines with a counter under which the second line no longer fits.
\<close>

definition count_chars :: "string \<Rightarrow> int" where
  "count_chars s = int (length s)"

definition fixed_summary :: "pydict list \<Rightarrow> string" where
  "fixed_summary messages = ''summary''"

definition padded_page :: browser where
  "padded_page = example_browser\<lparr>page_content := ''  Hello\<newline>''\<rparr>"

definition blank_page :: browser where
  "blank_page = example_browser\<lparr>page_content := '' \<newline> ''\<rparr>"

definition two_lines_page :: browser where
  "two_lines_page = example_browser\<lparr>page_content := ''ab\<newline>cd''\<rparr>"

definition count_heavy :: "string \<Rightarrow> int" where
  "count_heavy s = 10000 * int (length s)"

text \<open>The search page that the example browser shows for a query, with two links.\<close>

definition search_results :: string where
  "search_results =
     ''A search for example returned 2 results:\<newline>\<newline>''
     @ ''1. [Example Domain](https://example.com/a)\<newline>''
     @ ''2. [Other](https://example.org)\<newline>''"

definition search_methods :: browser_methods where
  "search_methods =
     example_methods\<lparr>visit_page :=
       (\<lambda>b u. b\<lparr>address := u, page_title := None,
                  page_content := (if take 6 u = ''bing: '' then search_results
                                   else ''Example page''),
                  history := history b @ [(u, 1000)]\<rparr>)\<rparr>"

section \<open>Properties of the cache factory\<close>

lemma redis_stage_cases:
  "redis_stage inst sd redis_url =
     (if truthy_str redis_url \<and> redis_available inst
      then ([TryImport Redis, Construct (RedisCache sd (the redis_url))],
            Some (RedisCache sd (the redis_url)))
      else if truthy_str redis_url then ([TryImport Redis, Warning redis_warning], None)
      else ([], None))"
  by (cases redis_url) (simp_all add: redis_stage_def)

lemma cosmos_stage_cases:
  "cosmos_stage inst sd cfg =
     (if cosmos_complete cfg \<and> cosmos_available inst
      then ([TryImport Cosmos, Construct (CosmosDBCache sd (the cfg))],
            Some (CosmosDBCache sd (the cfg)))
      else if cosmos_complete cfg then ([TryImport Cosmos, Warning cosmos_warning], None)
      else ([], None))"
  by (cases cfg) (simp_all add: cosmos_stage_def)

lemma cache_factory_constructs_once:
  "constructed (fst (cache_factory inst sd redis_url path_root cfg)) =
     [snd (cache_factory inst sd redis_url path_root cfg)]"
  by (simp add: cache_factory_def redis_stage_cases cosmos_stage_cases Let_def)

lemma cache_factory_redis:
  assumes "truthy_str redis_url" and "redis_available inst"
  shows "\<exists>u. redis_url = Some u \<and> u \<noteq> [] \<and>
           cache_factory inst sd redis_url path_root cfg =
             ([TryImport Redis, Construct (RedisCache sd u)], RedisCache sd u)"
  using assms by (cases redis_url) (simp_all add: cache_factory_def redis_stage_def)

lemma cache_factory_cosmos_attempt:
  "TryImport Cosmos \<in> set (fst (cache_factory inst sd redis_url path_root cfg)) \<longleftrightarrow>
     \<not> (truthy_str redis_url \<and> redis_available inst) \<and> cosmos_complete cfg"
  by (simp add: cache_factory_def redis_stage_cases cosmos_stage_cases Let_def)

lemma cosmos_complete_iff:
  "cosmos_complete cfg \<longleftrightarrow>
     (\<exists>c. cfg = Some c \<and> has_key c ''connection_string'' \<and> has_key c ''database_id''
         \<and> has_key c ''container_id'')"
  by (cases cfg) (auto simp: required_keys_def has_key_def)

text \<open>
  The body of the factory does fall back: with a Redis URL given and the Redis module
  missing, and a complete Cosmos configuration given and the Cosmos module missing, lines
  70-91 log the two warnings in order and return the disk cache, the only cache they
  construct, on the path \<open>./{cache_path_root}/{seed}\<close>.
\<close>

lemma cache_factory_body_fallback:
  assumes "truthy_str redis_url" and "\<not> redis_available inst"
    and "cosmos_complete cosmosdb_config" and "\<not> cosmos_available inst"
  shows "cache_factory inst sd redis_url cache_path_root cosmosdb_config =
           ([TryImport Redis, Warning redis_warning, TryImport Cosmos, Warning cosmos_warning,
             Construct (DiskCache (''./'' @ cache_path_root @ ''/'' @ format_seed sd))],
            DiskCache (''./'' @ cache_path_root @ ''/'' @ format_seed sd))"
proof -
  from assms(1) obtain u where u: "redis_url = Some u" by (cases redis_url) auto
  from assms(3) obtain cfg where cfg: "cosmosdb_config = Some cfg" by (cases cosmosdb_config) auto
  have r: "redis_stage inst sd redis_url = ([TryImport Redis, Warning redis_warning], None)"
    using assms(1,2) u by (simp add: redis_stage_def)
  have c: "cosmos_stage inst sd cosmosdb_config = ([TryImport Cosmos, Warning cosmos_warning], None)"
    using assms(3,4) cfg by (simp add: cosmos_stage_def)
  show ?thesis by (simp add: cache_factory_def r c disk_path_def Let_def)
qed

text \<open>
  The body is never reached in that situation: without the Cosmos client library the
  import of line 7 fails, whatever the arguments of the call would have been.
\<close>

lemma imported_cache_factory_without_cosmos:
  "\<not> cosmos_available inst \<Longrightarrow>
     imported_cache_factory inst sd redis_url cache_path_root cosmosdb_config = Inl ImportError"
  by (simp add: imported_cache_factory_def import_module_def)

lemma imported_cache_factory_with_cosmos:
  "cosmos_available inst \<Longrightarrow>
     imported_cache_factory inst sd redis_url cache_path_root cosmosdb_config =
       Inr (cache_factory inst sd redis_url cache_path_root cosmosdb_config)"
  by (simp add: imported_cache_factory_def import_module_def)

text \<open>
  Claim C2. The claim has backend selection return the disk cache, without raising, when
  a Redis URL is given, the Redis client library is missing, a complete Cosmos
  configuration is given and the Cosmos client library is missing. The code does not:
  for the seed \<open>42\<close>, the URL \<open>redis://localhost:6379/0\<close>, the root \<open>.cache\<close> and a
  complete configuration, with neither library installed, importing the module raises
  \<open>ImportError\<close> at line 7 and no cache is returned.
\<close>

theorem cache_factory_import_raises:
  "imported_cache_factory \<lparr>redis_available = False, cosmos_available = False\<rparr> (SeedStr ''42'')
     (Some ''redis://localhost:6379/0'') ''.cache''
     (Some [(''connection_string'', CStr ''cs''), (''database_id'', CStr ''db''),
            (''container_id'', CStr ''ct'')])
   = Inl ImportError"
  by (simp add: imported_cache_factory_def import_module_def)

text \<open>
  Claim C3. The candidates are tried in the order Redis, Cosmos, disk. With a non-empty
  Redis URL and the Redis module present, the Redis cache is returned after one import
  and one constructor call, and nothing else happens. Failing that, a complete Cosmos
  configuration with the Cosmos module present gives the Cosmos cache; failing both, the
  disk cache. Every run constructs exactly the cache it returns, and the Cosmos import is
  attempted only for a configuration that is given and has the keys
  \<open>connection_string\<close>, \<open>database_id\<close> and \<open>container_id\<close>.
\<close>

theorem cache_factory_order:
  "(truthy_str redis_url \<and> redis_available inst \<longrightarrow>
      (\<exists>u. redis_url = Some u \<and>
         cache_factory inst sd redis_url path_root cfg =
           ([TryImport Redis, Construct (RedisCache sd u)], RedisCache sd u)))
   \<and> (\<not> (truthy_str redis_url \<and> redis_available inst) \<and> cosmos_complete cfg
        \<and> cosmos_available inst \<longrightarrow>
      (\<exists>c. cfg = Some c \<and> snd (cache_factory inst sd redis_url path_root cfg) = CosmosDBCache sd c))
   \<and> (\<not> (truthy_str redis_url \<and> redis_available inst)
        \<and> \<not> (cosmos_complete cfg \<and> cosmos_available inst) \<longrightarrow>
      snd (cache_factory inst sd redis_url path_root cfg) = DiskCache (disk_path path_root sd))
   \<and> constructed (fst (cache_factory inst sd redis_url path_root cfg)) =
        [snd (cache_factory inst sd redis_url path_root cfg)]
   \<and> (TryImport Cosmos \<in> set (fst (cache_factory inst sd redis_url path_root cfg)) \<longrightarrow>
        (\<exists>c. cfg = Some c \<and> has_key c ''connection_string'' \<and> has_key c ''database_id''
           \<and> has_key c ''container_id''))"
proof (intro conjI impI)
  assume "truthy_str redis_url \<and> redis_available inst"
  then show "\<exists>u. redis_url = Some u \<and>
         cache_factory inst sd redis_url path_root cfg =
           ([TryImport Redis, Construct (RedisCache sd u)], RedisCache sd u)"
    using cache_factory_redis [of redis_url inst sd path_root cfg] by blast
next
  assume a: "\<not> (truthy_str redis_url \<and> redis_available inst) \<and> cosmos_complete cfg
        \<and> cosmos_available inst"
  then obtain c where "cfg = Some c" by (cases cfg) auto
  with a show "\<exists>c. cfg = Some c \<and>
      snd (cache_factory inst sd redis_url path_root cfg) = CosmosDBCache sd c"
    by (auto simp add: cache_factory_def redis_stage_cases cosmos_stage_cases)
next
  assume "\<not> (truthy_str redis_url \<and> redis_available inst)
        \<and> \<not> (cosmos_complete cfg \<and> cosmos_available inst)"
  then show "snd (cache_factory inst sd redis_url path_root cfg) = DiskCache (disk_path path_root sd)"
    by (auto simp add: cache_factory_def redis_stage_cases cosmos_stage_cases Let_def)
next
  show "constructed (fst (cache_factory inst sd redis_url path_root cfg)) =
        [snd (cache_factory inst sd redis_url path_root cfg)]"
    by (rule cache_factory_constructs_once)
next
  assume "TryImport Cosmos \<in> set (fst (cache_factory inst sd redis_url path_root cfg))"
  then have "cosmos_complete cfg" by (simp add: cache_factory_cosmos_attempt)
  then show "\<exists>c. cfg = Some c \<and> has_key c ''connection_string'' \<and> has_key c ''database_id''
           \<and> has_key c ''container_id''"
    by (simp add: cosmos_complete_iff)
qed

theorem cache_factory_order_witness:
  "cache_factory \<lparr>redis_available = True, cosmos_available = True\<rparr> (SeedStr ''myseed'')
      (Some ''redis://localhost:6379/0'') ''.cache'' (Some full_cosmos)
     = ([TryImport Redis, Construct (RedisCache (SeedStr ''myseed'') ''redis://localhost:6379/0'')],
        RedisCache (SeedStr ''myseed'') ''redis://localhost:6379/0'')
   \<and> snd (cache_factory \<lparr>redis_available = False, cosmos_available = True\<rparr> (SeedStr ''myseed'')
      (Some ''redis://localhost:6379/0'') ''.cache'' (Some full_cosmos))
     = CosmosDBCache (SeedStr ''myseed'') full_cosmos
   \<and> snd (cache_factory \<lparr>redis_available = False, cosmos_available = True\<rparr> (SeedStr ''myseed'')
      None ''.cache'' (Some [(''database_id'', CStr ''db'')]))
     = DiskCache ''./.cache/myseed''
   \<and> TryImport Cosmos \<in> set (fst (cache_factory \<lparr>redis_available = False, cosmos_available = False\<rparr>
      (SeedStr ''myseed'') None ''.cache'' (Some full_cosmos)))"
proof -
  let ?i1 = "\<lparr>redis_available = True, cosmos_available = True\<rparr>"
  let ?i2 = "\<lparr>redis_available = False, cosmos_available = True\<rparr>"
  let ?u = "Some ''redis://localhost:6379/0''"
  have full: "cosmos_complete (Some full_cosmos)"
    by (simp add: full_cosmos_def required_keys_def has_key_def)
  have part: "\<not> cosmos_complete (Some [(''database_id'', CStr ''db'')])"
    by (simp add: required_keys_def has_key_def)
  have a: "cache_factory ?i1 (SeedStr ''myseed'') ?u ''.cache'' (Some full_cosmos)
     = ([TryImport Redis, Construct (RedisCache (SeedStr ''myseed'') ''redis://localhost:6379/0'')],
        RedisCache (SeedStr ''myseed'') ''redis://localhost:6379/0'')"
    using cache_factory_order [of ?u ?i1 "SeedStr ''myseed''" "''.cache''" "Some full_cosmos"]
    by simp
  have b: "snd (cache_factory ?i2 (SeedStr ''myseed'') ?u ''.cache'' (Some full_cosmos))
     = CosmosDBCache (SeedStr ''myseed'') full_cosmos"
    using cache_factory_order [of ?u ?i2 "SeedStr ''myseed''" "''.cache''" "Some full_cosmos"] full
    by simp
  have c: "snd (cache_factory ?i2 (SeedStr ''myseed'') None ''.cache''
       (Some [(''database_id'', CStr ''db'')])) = DiskCache ''./.cache/myseed''"
    using cache_factory_order [of None ?i2 "SeedStr ''myseed''" "''.cache''"
        "Some [(''database_id'', CStr ''db'')]"] part
    by (simp add: disk_path_def)
  have d: "TryImport Cosmos \<in> set (fst (cache_factory \<lparr>redis_available = False, cosmos_available = False\<rparr>
      (SeedStr ''myseed'') None ''.cache'' (Some full_cosmos)))"
    using full by (simp add: cache_factory_cosmos_attempt)
  show ?thesis using a b c d by simp
qed


section \<open>Properties of the web surfer\<close>

subsection \<open>Evaluation lemmas for the examples\<close>

lemma str_int_small:
  "str_int 0 = ''0''" "str_int 1 = ''1''" "str_int 2 = ''2''" "str_int 112 = ''112''"
  by (simp_all add: str_int_def str_nat.simps digit_char_def)

lemma scan_example: "scan_history (history example_browser) (address example_browser)
             (length (history example_browser) - 1) = Some 300"
  by (simp add: example_browser_def numeral_3_eq_3)

lemma py_round_half: "py_round (225 / 2) = 112"
  by (simp add: py_round_def Let_def)

lemma example_header:
  "fst (browser_state (825 / 2) example_browser) =
     ''Address: https://example.com\<newline>Title: Example\<newline>''
     @ ''You previously visited this page 112 seconds ago.\<newline>''
     @ ''Viewport position: Showing page 1 of 1.\<newline>''"
  unfolding browser_state_def Let_def scan_example
  by (simp add: example_browser_def str_int_small py_round_half viewport_line_def visited_line_def)

subsection \<open>The header\<close>

lemma strip_keeps_inner:
  assumes "\<not> isspace c" and "\<not> isspace d"
  shows "strip (c # xs @ [d, CHR 0x0A]) = c # xs @ [d]"
  using assms by (simp add: strip_def isspace_def)

lemma header_shape:
  "\<exists>xs. fst (browser_state now b) = CHR ''A'' # xs @ [CHR ''.'', CHR 0x0A]"
proof -
  define mid where "mid =
    (case page_title b of None \<Rightarrow> [] | Some title \<Rightarrow> ''Title: '' @ title @ ''\<newline>'')
    @ (case scan_history (history b) (address b) (length (history b) - 1) of
         None \<Rightarrow> [] | Some t \<Rightarrow> visited_line now t)"
  have "fst (browser_state now b) =
      CHR ''A'' # (''ddress: '' @ address b @ ''\<newline>'' @ mid
        @ ''Viewport position: Showing page '' @ str_int (viewport_current_page b + 1)
        @ '' of '' @ str_int (int (length (viewport_pages b)))) @ [CHR ''.'', CHR 0x0A]"
    by (simp add: browser_state_def Let_def viewport_line_def mid_def
        split: option.splits)
  then show ?thesis by blast
qed

text \<open>
  Every header starts with \<open>Address:\<close> and ends with a full stop and a line feed, so
  \<open>header.strip()\<close> removes the final line feed and nothing else.
\<close>

lemma strip_header:
  "strip (fst (browser_state now b)) = butlast (fst (browser_state now b))"
proof -
  obtain xs where h: "fst (browser_state now b) = CHR ''A'' # xs @ [CHR ''.'', CHR 0x0A]"
    using header_shape by blast
  have "strip (CHR ''A'' # xs @ [CHR ''.'', CHR 0x0A]) = CHR ''A'' # xs @ [CHR ''.'']"
    by (rule strip_keeps_inner) (simp_all add: isspace_def)
  moreover have "butlast (CHR ''A'' # xs @ [CHR ''.'', CHR 0x0A]) = CHR ''A'' # xs @ [CHR ''.'']"
    by (simp add: butlast_append)
  ultimately show ?thesis using h by simp
qed





subsection \<open>The tools\<close>

text \<open>
  Claim C8. When \<open>find_on_page\<close> returns \<open>None\<close>, the reply of
  \<open>find_on_page_ctrl_f\<close> is the stripped header (the header without its final line
  feed), the separator, and a notice that quotes the search string. When \<open>find_next\<close>
  returns \<open>None\<close>, the reply is the stripped header, the separator, and a fixed notice
  in which no search string appears. The browser is left as the search left it.
\<close>

theorem find_not_found_replies:
  "(snd (find_on_page m b search_string) = None \<longrightarrow>
      (\<exists>body. snd (find_on_page_ctrl_f m now b search_string) =
                 butlast (fst (browser_state now (fst (find_on_page m b search_string))))
                   @ separator @ body
             \<and> body = ''The search string '' @ [CHR 0x27] @ search_string @ [CHR 0x27]
                        @ '' was not found on this page.''
             \<and> sublist search_string body)
      \<and> prefix (butlast (fst (browser_state now (fst (find_on_page m b search_string)))))
               (snd (find_on_page_ctrl_f m now b search_string))
      \<and> fst (find_on_page_ctrl_f m now b search_string) = fst (find_on_page m b search_string))
   \<and> (snd (find_next m b) = None \<longrightarrow>
      snd (tool_find_next m now b) =
        butlast (fst (browser_state now (fst (find_next m b)))) @ separator
          @ ''The search string was not found on this page.''
      \<and> prefix (butlast (fst (browser_state now (fst (find_next m b)))))
               (snd (tool_find_next m now b))
      \<and> fst (tool_find_next m now b) = fst (find_next m b))"
proof (intro conjI impI)
  assume nf: "snd (find_on_page m b search_string) = None"
  let ?b1 = "fst (find_on_page m b search_string)"
  let ?body = "''The search string '' @ [CHR 0x27] @ search_string @ [CHR 0x27]
                        @ '' was not found on this page.''"
  have r: "find_on_page_ctrl_f m now b search_string =
      (?b1, strip (fst (browser_state now ?b1)) @ separator @ ?body)"
    using nf by (cases "find_on_page m b search_string"; cases "browser_state now ?b1")
      (simp add: find_on_page_ctrl_f_def separator_def)
  have sub: "sublist search_string ?body"
    unfolding sublist_def by (intro exI [of _ "''The search string '' @ [CHR 0x27]"]
        exI [of _ "[CHR 0x27] @ '' was not found on this page.''"]) simp
  show "\<exists>body. snd (find_on_page_ctrl_f m now b search_string) =
                 butlast (fst (browser_state now ?b1)) @ separator @ body
             \<and> body = ?body \<and> sublist search_string body"
    using r sub by (simp add: strip_header)
  show "prefix (butlast (fst (browser_state now ?b1)))
               (snd (find_on_page_ctrl_f m now b search_string))"
    using r by (simp add: strip_header)
  show "fst (find_on_page_ctrl_f m now b search_string) = ?b1"
    using r by simp
next
  assume nf: "snd (find_next m b) = None"
  let ?b1 = "fst (find_next m b)"
  have r: "tool_find_next m now b =
      (?b1, strip (fst (browser_state now ?b1)) @ separator
          @ ''The search string was not found on this page.'')"
    using nf by (cases "find_next m b"; cases "browser_state now ?b1")
      (simp add: tool_find_next_def separator_def)
  show "snd (tool_find_next m now b) =
        butlast (fst (browser_state now ?b1)) @ separator
          @ ''The search string was not found on this page.''"
    using r by (simp add: strip_header)
  show "prefix (butlast (fst (browser_state now ?b1))) (snd (tool_find_next m now b))"
    using r by (simp add: strip_header)
  show "fst (tool_find_next m now b) = ?b1"
    using r by simp
qed

theorem find_not_found_replies_witness:
  "snd (find_on_page_ctrl_f example_methods (825 / 2) example_browser ''zzz'') =
     ''Address: https://example.com\<newline>Title: Example\<newline>''
     @ ''You previously visited this page 112 seconds ago.\<newline>''
     @ ''Viewport position: Showing page 1 of 1.''
     @ ''\<newline>=======================\<newline>''
     @ ''The search string '' @ [CHR 0x27] @ ''zzz'' @ [CHR 0x27] @ '' was not found on this page.''
   \<and> snd (tool_find_next example_methods (825 / 2) example_browser) =
     ''Address: https://example.com\<newline>Title: Example\<newline>''
     @ ''You previously visited this page 112 seconds ago.\<newline>''
     @ ''Viewport position: Showing page 1 of 1.''
     @ ''\<newline>=======================\<newline>''
     @ ''The search string was not found on this page.''"
proof -
  have f: "find_on_page example_methods example_browser ''zzz'' = (example_browser, None)"
    "find_next example_methods example_browser = (example_browser, None)"
    by (simp_all add: example_methods_def)
  note t = find_not_found_replies [of example_methods example_browser "''zzz''" "825 / 2"]
  from t f have a: "snd (find_on_page_ctrl_f example_methods (825 / 2) example_browser ''zzz'') =
      butlast (fst (browser_state (825 / 2) example_browser)) @ separator
        @ ''The search string '' @ [CHR 0x27] @ ''zzz'' @ [CHR 0x27] @ '' was not found on this page.''"
    by simp
  from t f have b: "snd (tool_find_next example_methods (825 / 2) example_browser) =
      butlast (fst (browser_state (825 / 2) example_browser)) @ separator
        @ ''The search string was not found on this page.''"
    by simp
  show ?thesis unfolding a b example_header by (simp add: separator_def)
qed

text \<open>
  Claim C9. The handler registered as \<open>visit_page\<close> and the one registered as
  \<open>download_file\<close> give the same browser and the same string for every browser, clock
  and address: both call \<open>visit_page\<close> of the browser once and return the stripped
  header, the separator and the viewport.
\<close>

theorem visit_page_download_file_same:
  "tool_visit_page m now b url = tool_download_file m now b url
   \<and> fst (tool_visit_page m now b url) = visit_page m b url
   \<and> snd (tool_visit_page m now b url) =
       strip (fst (browser_state now (visit_page m b url))) @ separator
         @ viewport (visit_page m b url)"
  by (simp add: tool_visit_page_def tool_download_file_def browser_state_def Let_def
      split: prod.splits)

theorem visit_page_download_file_same_witness:
  "tool_download_file example_methods 1005 example_browser ''https://example.org'' =
     (example_browser\<lparr>address := ''https://example.org'', page_title := None,
        history := history example_browser @ [(''https://example.org'', 1000)]\<rparr>,
      ''Address: https://example.org\<newline>''
      @ ''You previously visited this page 805 seconds ago.\<newline>''
      @ ''Viewport position: Showing page 1 of 1.''
      @ ''\<newline>=======================\<newline>Hello\<newline>World'')"
proof -
  let ?b1 = "example_browser\<lparr>address := ''https://example.org'', page_title := None,
        history := history example_browser @ [(''https://example.org'', 1000)]\<rparr>"
  have v: "visit_page example_methods example_browser ''https://example.org'' = ?b1"
    by (simp add: example_methods_def)
  have sc: "scan_history (history ?b1) (address ?b1) (length (history ?b1) - 1) = Some 200"
    by (simp add: example_browser_def eval_nat_numeral)
  have r: "py_round 805 = 805" by (simp add: py_round_def Let_def)
  have s8: "str_int 805 = ''805''" by (simp add: str_int_def str_nat.simps digit_char_def)
  have hd: "fst (browser_state 1005 ?b1) =
      ''Address: https://example.org\<newline>''
      @ ''You previously visited this page 805 seconds ago.\<newline>''
      @ ''Viewport position: Showing page 1 of 1.\<newline>''"
    unfolding browser_state_def Let_def sc
    by (simp add: example_browser_def str_int_small s8 r viewport_line_def visited_line_def)
  have st: "strip (fst (browser_state 1005 ?b1)) =
      ''Address: https://example.org\<newline>''
      @ ''You previously visited this page 805 seconds ago.\<newline>''
      @ ''Viewport position: Showing page 1 of 1.''"
    unfolding hd by (simp add: strip_def isspace_def)
  note t = visit_page_download_file_same [of example_methods 1005 example_browser "''https://example.org''"]
  have "tool_download_file example_methods 1005 example_browser ''https://example.org'' =
     (?b1, strip (fst (browser_state 1005 ?b1)) @ separator @ viewport ?b1)"
    using t unfolding v by (metis prod.collapse)
  then show ?thesis unfolding st by (simp add: separator_def example_browser_def)
qed

subsection \<open>The summarizer client\<close>

lemma filter_config_models:
  "set (filter_config cl preferred_models) =
     {c \<in> set cl. \<exists>v. map_of c ''model'' = Some v \<and>
        v \<in> {''gpt-3.5-turbo-1106'', ''gpt-3.5-turbo-16k-0613'', ''gpt-3.5-turbo-16k''}}"
  by (auto simp: filter_config_def preferred_models_def split: option.splits)

text \<open>
  Claim C6. With \<open>summarizer_llm_config\<close> \<open>None\<close> and an \<open>llm_config\<close> that has
  a \<open>config_list\<close>, the list is passed to \<open>filter_config\<close> with the three preferred
  models. If nothing is left, the configuration is kept as it is, the warning is logged,
  and the client is built from the unfiltered configuration; otherwise the list is
  replaced by the filtered one and nothing is logged. In both cases construction
  succeeds. This holds whatever \<open>filter_config\<close> computes.
\<close>

theorem summarizer_config_filtered:
  assumes "config_list d = Some cl"
  shows "(filter_cfg cl preferred_models = [] \<longrightarrow>
            create_summarizer_client filter_cfg LLMNone (LLMDict d) =
              ([summarizer_warning],
               Inr \<lparr>summarizer_llm_config = LLMDict d,
                    summarization_client = Some (OpenAIWrapper d)\<rparr>))
       \<and> (filter_cfg cl preferred_models \<noteq> [] \<longrightarrow>
            create_summarizer_client filter_cfg LLMNone (LLMDict d) =
              ([],
               Inr \<lparr>summarizer_llm_config =
                      LLMDict (d\<lparr>config_list := Some (filter_cfg cl preferred_models)\<rparr>),
                    summarization_client =
                      Some (OpenAIWrapper (d\<lparr>config_list := Some (filter_cfg cl preferred_models)\<rparr>))\<rparr>))
       \<and> (\<exists>s. snd (init_surfer filter_cfg (LLMDict d) LLMNone) = Inr s)"
  using assms
  by (simp add: create_summarizer_client_def resolve_summarizer_llm_config_def init_surfer_def
      Let_def)

theorem summarizer_config_filtered_witness:
  "create_summarizer_client filter_config LLMNone (LLMDict gpt4_only) =
     ([summarizer_warning],
      Inr \<lparr>summarizer_llm_config = LLMDict gpt4_only,
           summarization_client = Some (OpenAIWrapper gpt4_only)\<rparr>)
   \<and> create_summarizer_client filter_config LLMNone (LLMDict mixed_models) =
     ([],
      Inr \<lparr>summarizer_llm_config =
             LLMDict \<lparr>config_list = Some [[(''model'', ''gpt-3.5-turbo-16k'')]], other_entries = []\<rparr>,
           summarization_client =
             Some (OpenAIWrapper \<lparr>config_list = Some [[(''model'', ''gpt-3.5-turbo-16k'')]],
                                  other_entries = []\<rparr>)\<rparr>)"
proof -
  have f1: "filter_config [[(''model'', ''gpt-4''), (''api_key'', ''k'')]] preferred_models = []"
    by (simp add: filter_config_def preferred_models_def)
  have f2: "filter_config [[(''model'', ''gpt-4'')], [(''model'', ''gpt-3.5-turbo-16k'')]] preferred_models
      = [[(''model'', ''gpt-3.5-turbo-16k'')]]"
    by (simp add: filter_config_def preferred_models_def)
  have c1: "config_list gpt4_only = Some [[(''model'', ''gpt-4''), (''api_key'', ''k'')]]"
    by (simp add: gpt4_only_def)
  have c2: "config_list mixed_models = Some [[(''model'', ''gpt-4'')], [(''model'', ''gpt-3.5-turbo-16k'')]]"
    by (simp add: mixed_models_def)
  show ?thesis
    using summarizer_config_filtered [OF c1, of filter_config]
      summarizer_config_filtered [OF c2, of filter_config] f1 f2
    by (simp add: mixed_models_def)
qed

text \<open>
  Claim C10, as the code has it. With both configurations \<open>None\<close> the constructor
  raises \<open>TypeError\<close>. The constructor returns an agent without a summarization client
  exactly when \<open>summarizer_llm_config\<close> is \<open>False\<close>, or it is \<open>None\<close> and
  \<open>llm_config\<close> is \<open>False\<close>: in both cases it succeeds, logs nothing, and leaves
  the configuration \<open>False\<close> and no client, and in every other case it raises or builds
  a client. Without a client the two summarization tools are not registered.
\<close>

theorem no_summarizer_ways:
  "init_surfer filter_cfg LLMNone LLMNone = ([], Inl TypeError)
   \<and> create_summarizer_client filter_cfg LLMNone LLMNone = ([], Inl TypeError)
   \<and> ((\<exists>s. snd (init_surfer filter_cfg llm_cfg summarizer_cfg) = Inr s
             \<and> summarization_client (surfer_summarizer s) = None) \<longleftrightarrow>
          summarizer_cfg = LLMFalse \<or> (summarizer_cfg = LLMNone \<and> llm_cfg = LLMFalse))
   \<and> (summarizer_cfg = LLMFalse \<or> (summarizer_cfg = LLMNone \<and> llm_cfg = LLMFalse) \<longrightarrow>
        init_surfer filter_cfg llm_cfg summarizer_cfg =
          ([], Inr \<lparr>surfer_summarizer =
                      \<lparr>summarizer_llm_config = LLMFalse, summarization_client = None\<rparr>,
                    registered = (case llm_cfg of
                                    LLMDict d \<Rightarrow> register_functions None
                                  | _ \<Rightarrow> [])\<rparr>))
   \<and> (snd (init_surfer filter_cfg llm_cfg summarizer_cfg) = Inr s \<longrightarrow>
        (summarization_client (surfer_summarizer s) = None \<longleftrightarrow>
           summarizer_cfg = LLMFalse \<or> (summarizer_cfg = LLMNone \<and> llm_cfg = LLMFalse))
        \<and> (summarization_client (surfer_summarizer s) = None \<longrightarrow>
             ''read_page_and_answer'' \<notin> set (registered s)
             \<and> ''summarize_page'' \<notin> set (registered s)))"
proof (intro conjI)
  show "init_surfer filter_cfg LLMNone LLMNone = ([], Inl TypeError)"
    by (simp add: init_surfer_def create_summarizer_client_def resolve_summarizer_llm_config_def)
  show "create_summarizer_client filter_cfg LLMNone LLMNone = ([], Inl TypeError)"
    by (simp add: create_summarizer_client_def resolve_summarizer_llm_config_def)
  show "(\<exists>s. snd (init_surfer filter_cfg llm_cfg summarizer_cfg) = Inr s
             \<and> summarization_client (surfer_summarizer s) = None) \<longleftrightarrow>
          summarizer_cfg = LLMFalse \<or> (summarizer_cfg = LLMNone \<and> llm_cfg = LLMFalse)"
    by (cases summarizer_cfg; cases llm_cfg)
      (auto simp: init_surfer_def create_summarizer_client_def resolve_summarizer_llm_config_def
        Let_def split: option.splits if_splits)
  show "summarizer_cfg = LLMFalse \<or> (summarizer_cfg = LLMNone \<and> llm_cfg = LLMFalse) \<longrightarrow>
        init_surfer filter_cfg llm_cfg summarizer_cfg =
          ([], Inr \<lparr>surfer_summarizer =
                      \<lparr>summarizer_llm_config = LLMFalse, summarization_client = None\<rparr>,
                    registered = (case llm_cfg of
                                    LLMDict d \<Rightarrow> register_functions None
                                  | _ \<Rightarrow> [])\<rparr>)"
    by (cases summarizer_cfg; cases llm_cfg)
      (auto simp: init_surfer_def create_summarizer_client_def resolve_summarizer_llm_config_def)
  show "snd (init_surfer filter_cfg llm_cfg summarizer_cfg) = Inr s \<longrightarrow>
        (summarization_client (surfer_summarizer s) = None \<longleftrightarrow>
           summarizer_cfg = LLMFalse \<or> (summarizer_cfg = LLMNone \<and> llm_cfg = LLMFalse))
        \<and> (summarization_client (surfer_summarizer s) = None \<longrightarrow>
             ''read_page_and_answer'' \<notin> set (registered s)
             \<and> ''summarize_page'' \<notin> set (registered s))"
    by (cases summarizer_cfg; cases llm_cfg)
      (auto simp: init_surfer_def create_summarizer_client_def resolve_summarizer_llm_config_def
        register_functions_def Let_def split: option.splits if_splits)
qed

theorem no_summarizer_ways_witness:
  "init_surfer filter_config (LLMDict gpt4_only) LLMFalse =
     ([], Inr \<lparr>surfer_summarizer = \<lparr>summarizer_llm_config = LLMFalse, summarization_client = None\<rparr>,
          registered = [''informational_web_search'', ''navigational_web_search'', ''visit_page'',
            ''download_file'', ''page_up'', ''page_down'', ''find_on_page_ctrl_f'', ''find_next'']\<rparr>)
   \<and> init_surfer filter_config LLMFalse LLMNone =
     ([], Inr \<lparr>surfer_summarizer = \<lparr>summarizer_llm_config = LLMFalse, summarization_client = None\<rparr>,
          registered = []\<rparr>)
   \<and> (\<exists>s. snd (init_surfer filter_config LLMFalse LLMNone) = Inr s
          \<and> summarization_client (surfer_summarizer s) = None)
   \<and> \<not> (\<exists>s. snd (init_surfer filter_config (LLMDict gpt4_only) LLMNone) = Inr s
          \<and> summarization_client (surfer_summarizer s) = None)"
proof -
  note t1 = no_summarizer_ways [of filter_config "LLMDict gpt4_only" LLMFalse]
  note t2 = no_summarizer_ways [of filter_config LLMFalse LLMNone]
  note t3 = no_summarizer_ways [of filter_config "LLMDict gpt4_only" LLMNone]
  have a: "init_surfer filter_config (LLMDict gpt4_only) LLMFalse =
     ([], Inr \<lparr>surfer_summarizer = \<lparr>summarizer_llm_config = LLMFalse, summarization_client = None\<rparr>,
          registered = [''informational_web_search'', ''navigational_web_search'', ''visit_page'',
            ''download_file'', ''page_up'', ''page_down'', ''find_on_page_ctrl_f'', ''find_next'']\<rparr>)"
    using t1 by (simp add: register_functions_def)
  have b: "init_surfer filter_config LLMFalse LLMNone =
     ([], Inr \<lparr>surfer_summarizer = \<lparr>summarizer_llm_config = LLMFalse, summarization_client = None\<rparr>,
          registered = []\<rparr>)"
    using t2 by simp
  have c: "\<exists>s. snd (init_surfer filter_config LLMFalse LLMNone) = Inr s
          \<and> summarization_client (surfer_summarizer s) = None"
    using t2 by blast
  have d: "\<not> (\<exists>s. snd (init_surfer filter_config (LLMDict gpt4_only) LLMNone) = Inr s
          \<and> summarization_client (surfer_summarizer s) = None)"
    using t3 by blast
  from a b c d show ?thesis by blast
qed

text \<open>
  Passing \<open>summarizer_llm_config = False\<close> is not the only way: with \<open>llm_config = False\<close>
  and \<open>summarizer_llm_config\<close> left \<open>None\<close>, line 95 sets the configuration to
  \<open>False\<close> and the agent is built without a summarization client.
\<close>

theorem no_summarizer_counterexample:
  "init_surfer filter_config LLMFalse LLMNone =
     ([], Inr \<lparr>surfer_summarizer =
                 \<lparr>summarizer_llm_config = LLMFalse, summarization_client = None\<rparr>,
               registered = []\<rparr>)
   \<and> LLMNone \<noteq> LLMFalse"
  by (simp add: init_surfer_def create_summarizer_client_def resolve_summarizer_llm_config_def)

subsection \<open>The reply\<close>

lemma generate_surfer_reply_string:
  "s \<noteq> [] \<Longrightarrow> generate_surfer_reply agent_reply (ReplyStr s) = Inl TypeError"
  by (simp add: generate_surfer_reply_def)

text \<open>
  Claim C1. When the reply of the inner user proxy is the empty string, the result is the
  content of the last message of the inner assistant, \<open>None\<close> when that content is
  \<open>None\<close> and \<open>None\<close> when there is no message. When the reply is \<open>None\<close> the
  result is \<open>None\<close>, and when it is a message the result is the content of that message.
  None of these cases raises.
\<close>

theorem generate_surfer_reply_resolve:
  "generate_surfer_reply None (ReplyStr '''') = Inr (True, None)
   \<and> (map_of a ''content'' = Some c \<longrightarrow>
        generate_surfer_reply (Some a) (ReplyStr '''') = Inr (True, c))
   \<and> generate_surfer_reply agent_reply ReplyNone = Inr (True, None)
   \<and> (map_of p ''content'' = Some c' \<longrightarrow>
        generate_surfer_reply agent_reply (ReplyDict p) = Inr (True, c'))"
  by (simp add: generate_surfer_reply_def getitem_def)

theorem generate_surfer_reply_resolve_witness:
  "generate_surfer_reply (Some [(''content'', Some ''The capital is Paris.''), (''role'', Some ''assistant'')])
       (ReplyStr '''') = Inr (True, Some ''The capital is Paris.'')
   \<and> generate_surfer_reply (Some [(''content'', None), (''role'', Some ''assistant'')])
       (ReplyStr '''') = Inr (True, None)
   \<and> generate_surfer_reply (Some [(''content'', None), (''role'', Some ''assistant'')])
       (ReplyDict [(''role'', Some ''tool''), (''content'', Some ''Address: about:blank'')])
       = Inr (True, Some ''Address: about:blank'')"
  using generate_surfer_reply_resolve [of "[(''content'', Some ''The capital is Paris.''), (''role'', Some ''assistant'')]" "Some ''The capital is Paris.''"]
    generate_surfer_reply_resolve [of "[(''content'', None), (''role'', Some ''assistant'')]" None
      "Some [(''content'', None), (''role'', Some ''assistant'')]"
      "[(''role'', Some ''tool''), (''content'', Some ''Address: about:blank'')]"
      "Some ''Address: about:blank''"]
  by simp

subsection \<open>The link search of \<open>_navigational_search\<close>\<close>

lemma match_target_Some:
  "match_target t = Some x \<longleftrightarrow>
     (\<exists>rest. t = x @ CHR '')'' # rest \<and> CHR 0x0A \<notin> set x \<and> CHR '')'' \<notin> set x)"
proof (induction t arbitrary: x)
  case Nil
  then show ?case by simp
next
  case (Cons c cs)
  show ?case
  proof (cases "c = CHR '')''")
    case True
    then show ?thesis by (cases x) auto
  next
    case False
    show ?thesis
    proof (cases "c = CHR 0x0A")
      case True
      with False show ?thesis by (cases x) auto
    next
      case nl: False
      with False Cons show ?thesis by (cases x) auto
    qed
  qed
qed

lemma match_target_complete:
  "CHR 0x0A \<notin> set x \<Longrightarrow> match_target (x @ CHR '')'' # rest) \<noteq> None"
  by (induction x) auto

lemma match_label_complete:
  "CHR 0x0A \<notin> set label \<Longrightarrow> CHR 0x0A \<notin> set tgt \<Longrightarrow>
     match_label (label @ ''](http'' @ tgt @ CHR '')'' # rest) \<noteq> None"
proof (induction label)
  case Nil
  have "match_target (tgt @ CHR '')'' # rest) \<noteq> None"
    using Nil by (simp add: match_target_complete)
  then show ?case by (auto split: option.splits)
next
  case (Cons c label)
  then have "match_label (label @ ''](http'' @ tgt @ CHR '')'' # rest) \<noteq> None" by simp
  moreover from Cons.prems have "c \<noteq> CHR 0x0A" by auto
  ultimately show ?case by (auto split: option.splits)
qed

lemma re_search_link_None:
  "re_search_link s = None \<longleftrightarrow> (\<forall>pre r. s = pre @ CHR ''['' # r \<longrightarrow> match_label r = None)"
proof (induction s)
  case Nil
  then show ?case by simp
next
  case (Cons c cs)
  show ?case
  proof
    assume n: "re_search_link (c # cs) = None"
    then have rest: "re_search_link cs = None" by (auto split: option.splits if_splits)
    show "\<forall>pre r. c # cs = pre @ CHR ''['' # r \<longrightarrow> match_label r = None"
    proof (intro allI impI)
      fix pre r assume e: "c # cs = pre @ CHR ''['' # r"
      show "match_label r = None"
      proof (cases pre)
        case Nil
        with e have "c = CHR ''[''" "cs = r" by simp_all
        with n show ?thesis by (auto split: option.splits)
      next
        case (Cons p ps)
        with e have "cs = ps @ CHR ''['' # r" by simp
        with rest Cons.IH show ?thesis by blast
      qed
    qed
  next
    assume a: "\<forall>pre r. c # cs = pre @ CHR ''['' # r \<longrightarrow> match_label r = None"
    have "\<forall>pre r. cs = pre @ CHR ''['' # r \<longrightarrow> match_label r = None"
    proof (intro allI impI)
      fix pre r assume "cs = pre @ CHR ''['' # r"
      then have "c # cs = (c # pre) @ CHR ''['' # r" by simp
      with a show "match_label r = None" by blast
    qed
    with Cons.IH have rest: "re_search_link cs = None" by blast
    have "c = CHR ''['' \<Longrightarrow> match_label cs = None"
    proof -
      assume "c = CHR ''[''"
      then have "c # cs = [] @ CHR ''['' # cs" by simp
      with a show ?thesis by blast
    qed
    with rest show "re_search_link (c # cs) = None" by (auto split: option.splits)
  qed
qed

lemma re_search_link_Some:
  "re_search_link s = Some u \<Longrightarrow>
     \<exists>pre r. s = pre @ CHR ''['' # r \<and> match_label r = Some u
       \<and> (\<forall>pre' r'. s = pre' @ CHR ''['' # r' \<and> length pre' < length pre \<longrightarrow> match_label r' = None)"
proof (induction s)
  case Nil
  then show ?case by simp
next
  case (Cons c cs)
  let ?attempt = "if c = CHR ''['' then match_label cs else None"
  show ?case
  proof (cases ?attempt)
    case (Some v)
    with Cons.prems have "v = u" by simp
    with Some have "c = CHR ''[''" "match_label cs = Some u" by (auto split: if_splits)
    then show ?thesis by (intro exI [of _ "[]"] exI [of _ cs]) simp
  next
    case None
    with Cons.prems have m: "re_search_link cs = Some u" by simp
    from Cons.IH [OF m] obtain pre r where pr: "cs = pre @ CHR ''['' # r" "match_label r = Some u"
      "\<forall>pre' r'. cs = pre' @ CHR ''['' # r' \<and> length pre' < length pre \<longrightarrow> match_label r' = None"
      by blast
    have "\<forall>pre' r'. c # cs = pre' @ CHR ''['' # r' \<and> length pre' < length (c # pre)
            \<longrightarrow> match_label r' = None"
    proof (intro allI impI)
      fix pre' r' assume h: "c # cs = pre' @ CHR ''['' # r' \<and> length pre' < length (c # pre)"
      show "match_label r' = None"
      proof (cases pre')
        case Nil
        with h have "c = CHR ''[''" "cs = r'" by simp_all
        with None show ?thesis by simp
      next
        case (Cons p ps)
        with h have "cs = ps @ CHR ''['' # r'" "length ps < length pre" by simp_all
        with pr(3) show ?thesis by blast
      qed
    qed
    with pr(1,2) show ?thesis by (intro exI [of _ "c # pre"] exI [of _ r]) simp
  qed
qed

lemma until_char_unique:
  assumes "xs @ c # ys = xs' @ c # ys'" and "c \<notin> set xs" and "c \<notin> set xs'"
  shows "xs = xs'"
proof -
  have "takeWhile (\<lambda>x. x \<noteq> c) (xs @ c # ys) = xs"
    using assms(2) by (induction xs) auto
  moreover have "takeWhile (\<lambda>x. x \<noteq> c) (xs' @ c # ys') = xs'"
    using assms(3) by (induction xs') auto
  ultimately show ?thesis using assms(1) by simp
qed

lemma match_label_shortest:
  "match_label r = Some u \<Longrightarrow>
     \<exists>label tgt rest. r = label @ ''](http'' @ tgt @ CHR '')'' # rest \<and> u = ''http'' @ tgt
        \<and> CHR 0x0A \<notin> set label \<and> CHR 0x0A \<notin> set tgt \<and> CHR '')'' \<notin> set tgt
        \<and> (\<forall>label' tgt' rest'. r = label' @ ''](http'' @ tgt' @ CHR '')'' # rest'
               \<and> CHR 0x0A \<notin> set tgt' \<longrightarrow> length label \<le> length label')"
proof (induction r)
  case Nil
  then show ?case by simp
next
  case (Cons c cs)
  let ?attempt = "if take 6 (c # cs) = ''](http'' then match_target (drop 6 (c # cs)) else None"
  show ?case
  proof (cases ?attempt)
    case (Some t)
    then have p: "take 6 (c # cs) = ''](http''" and mt: "match_target (drop 6 (c # cs)) = Some t"
      by (auto split: if_splits)
    from mt obtain rest where d: "drop 6 (c # cs) = t @ CHR '')'' # rest"
      "CHR 0x0A \<notin> set t" "CHR '')'' \<notin> set t"
      using match_target_Some by blast
    have "c # cs = take 6 (c # cs) @ drop 6 (c # cs)" by simp
    with p d(1) have "c # cs = [] @ ''](http'' @ t @ CHR '')'' # rest" by simp
    moreover from Some Cons.prems have "u = ''http'' @ t" by simp
    ultimately show ?thesis using d(2,3)
      by (intro exI [of _ "[]"] exI [of _ t] exI [of _ rest]) simp
  next
    case None
    with Cons.prems have c: "c \<noteq> CHR 0x0A" and m: "match_label cs = Some u"
      by (auto split: if_splits)
    from Cons.IH [OF m] obtain label tgt rest where l:
      "cs = label @ ''](http'' @ tgt @ CHR '')'' # rest" "u = ''http'' @ tgt"
      "CHR 0x0A \<notin> set label" "CHR 0x0A \<notin> set tgt" "CHR '')'' \<notin> set tgt"
      and least: "\<forall>label' tgt' rest'. cs = label' @ ''](http'' @ tgt' @ CHR '')'' # rest'
               \<and> CHR 0x0A \<notin> set tgt' \<longrightarrow> length label \<le> length label'"
      by blast
    have "\<forall>label' tgt' rest'. c # cs = label' @ ''](http'' @ tgt' @ CHR '')'' # rest'
               \<and> CHR 0x0A \<notin> set tgt' \<longrightarrow> length (c # label) \<le> length label'"
    proof (intro allI impI)
      fix label' tgt' rest'
      assume h: "c # cs = label' @ ''](http'' @ tgt' @ CHR '')'' # rest'
               \<and> CHR 0x0A \<notin> set tgt'"
      show "length (c # label) \<le> length label'"
      proof (cases label')
        case Nil
        with h have e: "c # cs = ''](http'' @ tgt' @ CHR '')'' # rest'" by simp
        then have "take 6 (c # cs) = ''](http''" by simp
        moreover from e have "drop 6 (c # cs) = tgt' @ CHR '')'' # rest'" by simp
        then have "match_target (drop 6 (c # cs)) \<noteq> None"
          using h by (simp add: match_target_complete)
        ultimately have "?attempt \<noteq> None" by simp
        with None show ?thesis by simp
      next
        case (Cons x l2)
        with h have "cs = l2 @ ''](http'' @ tgt' @ CHR '')'' # rest'" by simp
        with least h have "length label \<le> length l2" by blast
        with Cons show ?thesis by simp
      qed
    qed
    with l c show ?thesis
      by (intro exI [of _ "c # label"] exI [of _ tgt] exI [of _ rest]) simp
  qed
qed

lemma re_search_link_first:
  assumes f: "re_search_link s = Some target"
  shows "\<exists>pre label tgt rest.
           s = pre @ ''['' @ label @ '']('' @ target @ '')'' @ rest \<and> target = ''http'' @ tgt
           \<and> CHR 0x0A \<notin> set label \<and> CHR 0x0A \<notin> set tgt \<and> CHR '')'' \<notin> set tgt
           \<and> (\<forall>pre' label' tgt' rest'.
                 s = pre' @ ''['' @ label' @ ''](http'' @ tgt' @ '')'' @ rest'
                 \<and> CHR 0x0A \<notin> set label' \<and> CHR 0x0A \<notin> set tgt'
                 \<longrightarrow> length pre < length pre'
                     \<or> (length pre = length pre' \<and> length label \<le> length label'))"
proof -
  from re_search_link_Some [OF f] obtain pre r where
    pr: "s = pre @ CHR ''['' # r" "match_label r = Some target"
    and first: "\<forall>pre' r'. s = pre' @ CHR ''['' # r' \<and> length pre' < length pre
                  \<longrightarrow> match_label r' = None"
    by blast
  from match_label_shortest [OF pr(2)] obtain label tgt rest where
    l: "r = label @ ''](http'' @ tgt @ CHR '')'' # rest" "target = ''http'' @ tgt"
      "CHR 0x0A \<notin> set label" "CHR 0x0A \<notin> set tgt" "CHR '')'' \<notin> set tgt"
    and least: "\<forall>label' tgt' rest'. r = label' @ ''](http'' @ tgt' @ CHR '')'' # rest'
               \<and> CHR 0x0A \<notin> set tgt' \<longrightarrow> length label \<le> length label'"
    by blast
  have eq: "s = pre @ ''['' @ label @ '']('' @ target @ '')'' @ rest"
    using pr(1) l(1,2) by simp
  have lex: "\<forall>pre' label' tgt' rest'.
                 s = pre' @ ''['' @ label' @ ''](http'' @ tgt' @ '')'' @ rest'
                 \<and> CHR 0x0A \<notin> set label' \<and> CHR 0x0A \<notin> set tgt'
                 \<longrightarrow> length pre < length pre'
                     \<or> (length pre = length pre' \<and> length label \<le> length label')"
  proof (intro allI impI)
    fix pre' label' tgt' rest'
    assume h: "s = pre' @ ''['' @ label' @ ''](http'' @ tgt' @ '')'' @ rest'
                 \<and> CHR 0x0A \<notin> set label' \<and> CHR 0x0A \<notin> set tgt'"
    let ?r' = "label' @ ''](http'' @ tgt' @ CHR '')'' # rest'"
    from h have s': "s = pre' @ CHR ''['' # ?r'" by simp
    from h have m: "match_label ?r' \<noteq> None" using match_label_complete by blast
    have ge: "length pre \<le> length pre'"
    proof (rule ccontr)
      assume "\<not> length pre \<le> length pre'"
      then have "length pre' < length pre" by simp
      with s' first have "match_label ?r' = None" by blast
      with m show False by simp
    qed
    show "length pre < length pre'
            \<or> (length pre = length pre' \<and> length label \<le> length label')"
    proof (cases "length pre = length pre'")
      case True
      from pr(1) s' have "pre @ CHR ''['' # r = pre' @ CHR ''['' # ?r'" by simp
      with True have "r = ?r'" by simp
      with least h have "length label \<le> length label'" by blast
      with True show ?thesis by simp
    next
      case False
      with ge show ?thesis by simp
    qed
  qed
  from eq l(2-5) lex show ?thesis by blast
qed

lemma re_search_link_none_iff:
  "re_search_link s = None \<longleftrightarrow>
        \<not> (\<exists>pre label tgt rest.
              s = pre @ ''['' @ label @ ''](http'' @ tgt @ '')'' @ rest
              \<and> CHR 0x0A \<notin> set label \<and> CHR 0x0A \<notin> set tgt)"
proof
  assume n: "re_search_link s = None"
  show "\<not> (\<exists>pre label tgt rest.
              s = pre @ ''['' @ label @ ''](http'' @ tgt @ '')'' @ rest
              \<and> CHR 0x0A \<notin> set label \<and> CHR 0x0A \<notin> set tgt)"
  proof
    assume "\<exists>pre label tgt rest.
              s = pre @ ''['' @ label @ ''](http'' @ tgt @ '')'' @ rest
              \<and> CHR 0x0A \<notin> set label \<and> CHR 0x0A \<notin> set tgt"
    then obtain pre label tgt rest where
      h: "s = pre @ ''['' @ label @ ''](http'' @ tgt @ '')'' @ rest"
        "CHR 0x0A \<notin> set label" "CHR 0x0A \<notin> set tgt" by blast
    from h(1) have "s = pre @ CHR ''['' # (label @ ''](http'' @ tgt @ CHR '')'' # rest)" by simp
    with n have "match_label (label @ ''](http'' @ tgt @ CHR '')'' # rest) = None"
      using re_search_link_None by blast
    with match_label_complete [OF h(2,3)] show False by blast
  qed
next
  assume a: "\<not> (\<exists>pre label tgt rest.
              s = pre @ ''['' @ label @ ''](http'' @ tgt @ '')'' @ rest
              \<and> CHR 0x0A \<notin> set label \<and> CHR 0x0A \<notin> set tgt)"
  show "re_search_link s = None"
  proof (rule ccontr)
    assume "re_search_link s \<noteq> None"
    then obtain u where f: "re_search_link s = Some u" by blast
    from re_search_link_first [OF f] obtain pre label tgt rest where
      "s = pre @ ''['' @ label @ '']('' @ u @ '')'' @ rest" "u = ''http'' @ tgt"
      "CHR 0x0A \<notin> set label" "CHR 0x0A \<notin> set tgt" by blast
    then have "s = pre @ ''['' @ label @ ''](http'' @ tgt @ '')'' @ rest
        \<and> CHR 0x0A \<notin> set label \<and> CHR 0x0A \<notin> set tgt" by simp
    with a show False by blast
  qed
qed

lemma first_link_unique:
  assumes d: "s = pre @ ''['' @ label @ '']('' @ target @ '')'' @ rest" "target = ''http'' @ tgt"
      "CHR 0x0A \<notin> set label" "CHR 0x0A \<notin> set tgt" "CHR '')'' \<notin> set tgt"
    and lex: "\<forall>pre' label' tgt' rest'.
                 s = pre' @ ''['' @ label' @ ''](http'' @ tgt' @ '')'' @ rest'
                 \<and> CHR 0x0A \<notin> set label' \<and> CHR 0x0A \<notin> set tgt'
                 \<longrightarrow> length pre < length pre'
                     \<or> (length pre = length pre' \<and> length label \<le> length label')"
  shows "re_search_link s = Some target"
proof -
  from d have v: "s = pre @ ''['' @ label @ ''](http'' @ tgt @ '')'' @ rest
      \<and> CHR 0x0A \<notin> set label \<and> CHR 0x0A \<notin> set tgt" by simp
  then have "re_search_link s \<noteq> None" using re_search_link_none_iff by blast
  then obtain u where f: "re_search_link s = Some u" by blast
  from re_search_link_first [OF f] obtain pre2 label2 tgt2 rest2 where
    d2: "s = pre2 @ ''['' @ label2 @ '']('' @ u @ '')'' @ rest2" "u = ''http'' @ tgt2"
      "CHR 0x0A \<notin> set label2" "CHR 0x0A \<notin> set tgt2" "CHR '')'' \<notin> set tgt2"
    and lex2: "\<forall>pre' label' tgt' rest'.
                 s = pre' @ ''['' @ label' @ ''](http'' @ tgt' @ '')'' @ rest'
                 \<and> CHR 0x0A \<notin> set label' \<and> CHR 0x0A \<notin> set tgt'
                 \<longrightarrow> length pre2 < length pre'
                     \<or> (length pre2 = length pre' \<and> length label2 \<le> length label')"
    by blast
  from d2 have v2: "s = pre2 @ ''['' @ label2 @ ''](http'' @ tgt2 @ '')'' @ rest2
      \<and> CHR 0x0A \<notin> set label2 \<and> CHR 0x0A \<notin> set tgt2" by simp
  from lex v2 have o1: "length pre < length pre2
      \<or> (length pre = length pre2 \<and> length label \<le> length label2)" by blast
  from lex2 v have o2: "length pre2 < length pre
      \<or> (length pre2 = length pre \<and> length label2 \<le> length label)" by blast
  from o1 o2 have lp: "length pre = length pre2" and ll: "length label = length label2"
    by auto
  from v v2 have "pre @ (''['' @ label @ ''](http'' @ tgt @ '')'' @ rest)
      = pre2 @ (''['' @ label2 @ ''](http'' @ tgt2 @ '')'' @ rest2)" by simp
  with lp have "label @ (''](http'' @ tgt @ '')'' @ rest) = label2 @ (''](http'' @ tgt2 @ '')'' @ rest2)"
    by simp
  with ll have e: "tgt @ CHR '')'' # rest = tgt2 @ CHR '')'' # rest2" by simp
  have "tgt = tgt2" by (rule until_char_unique [OF e d(5) d2(5)])
  with d(2) d2(2) f show ?thesis by simp
qed


lemma two_links: "re_search_link ''[a](http://x) [b](http://y)'' = Some ''http://x''"
  by simp

lemma search_results_link: "re_search_link search_results = Some ''https://example.com/a''"
  by (simp add: search_results_def)

lemma search_page_content:
  "page_content (visit_page search_methods example_browser ''bing: example'') = search_results"
  by (simp add: search_methods_def example_methods_def)

lemma plain_page_content:
  "page_content (visit_page example_methods example_browser ''bing: example'') = ''Hello\<newline>World''"
  by (simp add: example_methods_def example_browser_def)

lemma plain_page_no_link: "re_search_link ''Hello\<newline>World'' = None"
  by simp

text \<open>
  Claim C7. \<open>navigational_search\<close> first visits \<open>bing: query\<close>. If the search for
  \<open>[label](http...)\<close> in the content of that page finds a target, the browser then
  visits the target; if it finds none, the browser stays on the search page. A link is
  \<open>[label](http...)\<close> with no line feed in the label or in the target. The target
  found is that of the first link: of the link that starts leftmost in the content and,
  among those, has the shortest label, read up to its first \<open>)\<close>; the search gives
  this target and no other. None is found exactly when the content has no link.
\<close>

theorem navigational_search_first_link:
  "fst (navigational_search m now b query) =
     (case re_search_link (page_content (visit_page m b (''bing: '' @ query))) of
        None \<Rightarrow> visit_page m b (''bing: '' @ query)
      | Some target \<Rightarrow> visit_page m (visit_page m b (''bing: '' @ query)) target)
   \<and> (re_search_link s = Some target \<longleftrightarrow>
        (\<exists>pre label tgt rest.
           s = pre @ ''['' @ label @ '']('' @ target @ '')'' @ rest \<and> target = ''http'' @ tgt
           \<and> CHR 0x0A \<notin> set label \<and> CHR 0x0A \<notin> set tgt \<and> CHR '')'' \<notin> set tgt
           \<and> (\<forall>pre' label' tgt' rest'.
                 s = pre' @ ''['' @ label' @ ''](http'' @ tgt' @ '')'' @ rest'
                 \<and> CHR 0x0A \<notin> set label' \<and> CHR 0x0A \<notin> set tgt'
                 \<longrightarrow> length pre < length pre'
                     \<or> (length pre = length pre' \<and> length label \<le> length label'))))
   \<and> (re_search_link s = None \<longleftrightarrow>
        \<not> (\<exists>pre label tgt rest.
              s = pre @ ''['' @ label @ ''](http'' @ tgt @ '')'' @ rest
              \<and> CHR 0x0A \<notin> set label \<and> CHR 0x0A \<notin> set tgt))"
proof (intro conjI)
  show "fst (navigational_search m now b query) =
     (case re_search_link (page_content (visit_page m b (''bing: '' @ query))) of
        None \<Rightarrow> visit_page m b (''bing: '' @ query)
      | Some target \<Rightarrow> visit_page m (visit_page m b (''bing: '' @ query)) target)"
    by (simp add: navigational_search_def Let_def split: prod.splits option.splits)
  show "re_search_link s = Some target \<longleftrightarrow>
        (\<exists>pre label tgt rest.
           s = pre @ ''['' @ label @ '']('' @ target @ '')'' @ rest \<and> target = ''http'' @ tgt
           \<and> CHR 0x0A \<notin> set label \<and> CHR 0x0A \<notin> set tgt \<and> CHR '')'' \<notin> set tgt
           \<and> (\<forall>pre' label' tgt' rest'.
                 s = pre' @ ''['' @ label' @ ''](http'' @ tgt' @ '')'' @ rest'
                 \<and> CHR 0x0A \<notin> set label' \<and> CHR 0x0A \<notin> set tgt'
                 \<longrightarrow> length pre < length pre'
                     \<or> (length pre = length pre' \<and> length label \<le> length label')))"
    using re_search_link_first [of s target] first_link_unique [of s _ _ target _ _] by blast
  show "re_search_link s = None \<longleftrightarrow>
        \<not> (\<exists>pre label tgt rest.
              s = pre @ ''['' @ label @ ''](http'' @ tgt @ '')'' @ rest
              \<and> CHR 0x0A \<notin> set label \<and> CHR 0x0A \<notin> set tgt)"
    by (rule re_search_link_none_iff)
qed

theorem navigational_search_first_link_witness:
  "fst (navigational_search search_methods 1005 example_browser ''example'') =
     visit_page search_methods (visit_page search_methods example_browser ''bing: example'')
       ''https://example.com/a''
   \<and> address (fst (navigational_search search_methods 1005 example_browser ''example''))
       = ''https://example.com/a''
   \<and> fst (navigational_search example_methods 1005 example_browser ''example'') =
       visit_page example_methods example_browser ''bing: example''
   \<and> (\<exists>pre label tgt rest.
         search_results = pre @ ''['' @ label @ '']('' @ ''https://example.com/a'' @ '')'' @ rest
         \<and> ''https://example.com/a'' = ''http'' @ tgt)
   \<and> (\<exists>pre label tgt rest.
         ''[a](http://x) [b](http://y)'' = pre @ ''['' @ label @ '']('' @ ''http://x'' @ '')'' @ rest
         \<and> ''http://x'' = ''http'' @ tgt)
   \<and> re_search_link ''[a](http://x) [b](http://y)'' \<noteq> Some ''http://y''"
proof -
  note t1 = navigational_search_first_link [of search_methods 1005 example_browser "''example''"
      search_results "''https://example.com/a''"]
  note t2 = navigational_search_first_link [of example_methods 1005 example_browser "''example''"
      "''Hello\<newline>World''" "''x''"]
  have a: "fst (navigational_search search_methods 1005 example_browser ''example'') =
     visit_page search_methods (visit_page search_methods example_browser ''bing: example'')
       ''https://example.com/a''"
    using conjunct1 [OF t1] by (simp add: search_page_content search_results_link)
  have b: "address (visit_page search_methods (visit_page search_methods example_browser ''bing: example'')
       ''https://example.com/a'') = ''https://example.com/a''"
    by (simp add: search_methods_def)
  have c: "fst (navigational_search example_methods 1005 example_browser ''example'') =
       visit_page example_methods example_browser ''bing: example''"
    using conjunct1 [OF t2] by (simp add: plain_page_content)
  have d: "\<exists>pre label tgt rest.
         search_results = pre @ ''['' @ label @ '']('' @ ''https://example.com/a'' @ '')'' @ rest
         \<and> ''https://example.com/a'' = ''http'' @ tgt"
    using t1 search_results_link by blast
  note t3 = navigational_search_first_link [of search_methods 1005 example_browser "''example''"
      "''[a](http://x) [b](http://y)''" "''http://x''"]
  have e: "\<exists>pre label tgt rest.
         ''[a](http://x) [b](http://y)'' = pre @ ''['' @ label @ '']('' @ ''http://x'' @ '')'' @ rest
         \<and> ''http://x'' = ''http'' @ tgt"
    using t3 two_links by blast
  have f: "re_search_link ''[a](http://x) [b](http://y)'' \<noteq> Some ''http://y''"
    unfolding two_links by simp
  from a b c d e f show ?thesis by simp
qed

subsection \<open>The buffer of \<open>_read_page_and_answer\<close>\<close>

lemma split_unfold_nil:
  "dropWhile (\<lambda>c. \<not> is_newline c) s = [] \<Longrightarrow> re_split_newlines s = [s]"
  by (subst re_split_newlines.simps) simp

lemma split_unfold_cons:
  "dropWhile (\<lambda>c. \<not> is_newline c) s \<noteq> [] \<Longrightarrow>
     re_split_newlines s =
       takeWhile (\<lambda>c. \<not> is_newline c) s
       # takeWhile is_newline (dropWhile (\<lambda>c. \<not> is_newline c) s)
       # re_split_newlines (dropWhile is_newline (dropWhile (\<lambda>c. \<not> is_newline c) s))"
  by (simp only: re_split_newlines.simps [of s] if_False)

lemma concat_re_split_newlines: "concat (re_split_newlines s) = s"
proof (induction s rule: re_split_newlines.induct)
  case (1 s)
  show ?case
  proof (cases "dropWhile (\<lambda>c. \<not> is_newline c) s = []")
    case True
    then show ?thesis by (simp only: split_unfold_nil concat.simps append_Nil2)
  next
    case False
    let ?r = "dropWhile (\<lambda>c. \<not> is_newline c) s"
    have "concat (re_split_newlines s) =
        takeWhile (\<lambda>c. \<not> is_newline c) s @ takeWhile is_newline ?r
          @ concat (re_split_newlines (dropWhile is_newline ?r))"
      by (simp only: split_unfold_cons [OF False] concat.simps)
    also have "\<dots> = takeWhile (\<lambda>c. \<not> is_newline c) s @ takeWhile is_newline ?r
          @ dropWhile is_newline ?r"
      by (simp only: 1 [OF False])
    also have "\<dots> = s" by (simp only: takeWhile_dropWhile_id)
    finally show ?thesis .
  qed
qed

lemma fill_buffer_take:
  "\<exists>k\<le>length ls. fill_buffer ct buf ls = buf @ concat (take k ls)
      \<and> (\<forall>j<k. ct (buf @ concat (take (Suc j) ls)) + 1024 \<le> token_limit)
      \<and> (k < length ls \<longrightarrow> token_limit < ct (buf @ concat (take (Suc k) ls)) + 1024)"
proof (induction ls arbitrary: buf)
  case Nil
  then show ?case by simp
next
  case (Cons l ls)
  show ?case
  proof (cases "ct (buf @ l) + 1024 > token_limit")
    case True
    then show ?thesis by (intro exI [of _ 0]) (simp add: Let_def)
  next
    case False
    from Cons [of "buf @ l"] obtain k where k: "k \<le> length ls"
      "fill_buffer ct (buf @ l) ls = (buf @ l) @ concat (take k ls)"
      "\<forall>j<k. ct ((buf @ l) @ concat (take (Suc j) ls)) + 1024 \<le> token_limit"
      "k < length ls \<longrightarrow> token_limit < ct ((buf @ l) @ concat (take (Suc k) ls)) + 1024"
      by blast
    have fits: "\<forall>j<Suc k. ct (buf @ concat (take (Suc j) (l # ls))) + 1024 \<le> token_limit"
    proof (intro allI impI)
      fix j assume "j < Suc k"
      show "ct (buf @ concat (take (Suc j) (l # ls))) + 1024 \<le> token_limit"
      proof (cases j)
        case 0
        with False show ?thesis by simp
      next
        case (Suc i)
        with \<open>j < Suc k\<close> k(3) show ?thesis by simp
      qed
    qed
    have e: "fill_buffer ct buf (l # ls) = buf @ concat (take (Suc k) (l # ls))"
      using False k(2) by (simp add: Let_def)
    have nxt: "Suc k < length (l # ls) \<longrightarrow>
        token_limit < ct (buf @ concat (take (Suc (Suc k)) (l # ls))) + 1024"
      using k(4) by simp
    have "Suc k \<le> length (l # ls)" using k(1) by simp
    then show ?thesis using e fits nxt by blast
  qed
qed


lemma fill_buffer_all:
  assumes "\<forall>j<length ls. ct (buf @ concat (take (Suc j) ls)) + 1024 \<le> token_limit"
  shows "fill_buffer ct buf ls = buf @ concat ls"
proof -
  from fill_buffer_take [of ls ct buf] obtain k where k: "k \<le> length ls"
    "fill_buffer ct buf ls = buf @ concat (take k ls)"
    "k < length ls \<longrightarrow> token_limit < ct (buf @ concat (take (Suc k) ls)) + 1024"
    by blast
  have "k = length ls"
  proof (rule ccontr)
    assume "k \<noteq> length ls"
    with k(1) have lt: "k < length ls" by simp
    with k(3) have "token_limit < ct (buf @ concat (take (Suc k) ls)) + 1024" by blast
    moreover from assms lt have "ct (buf @ concat (take (Suc k) ls)) + 1024 \<le> token_limit"
      by blast
    ultimately show False by simp
  qed
  with k(2) show ?thesis by simp
qed


lemma fill_buffer_strict:
  assumes above: "\<exists>j<length ls. token_limit < ct (concat (take (Suc j) ls)) + 1024"
    and ne: "concat ls \<noteq> []"
  shows "strict_prefix (fill_buffer ct [] ls) (concat ls)"
proof -
  from fill_buffer_take [of ls ct "[]"] obtain k where k: "k \<le> length ls"
    "fill_buffer ct [] ls = concat (take k ls)"
    "\<forall>j<k. ct (concat (take (Suc j) ls)) + 1024 \<le> token_limit"
    "k < length ls \<longrightarrow> token_limit < ct (concat (take (Suc k) ls)) + 1024"
    by auto
  have lt: "k < length ls"
  proof (rule ccontr)
    assume "\<not> k < length ls"
    with k(1) have "k = length ls" by simp
    with k(3) above show False by auto
  qed
  have split: "concat ls = concat (take k ls) @ concat (drop k ls)"
    by (metis append_take_drop_id concat_append)
  have "concat (drop k ls) \<noteq> []"
  proof
    assume e: "concat (drop k ls) = []"
    from lt have "take (Suc k) ls = take k ls @ [ls ! k]" by (rule take_Suc_conv_app_nth)
    moreover from lt e have "ls ! k = []"
      by (metis Cons_nth_drop_Suc append_is_Nil_conv concat.simps(2))
    ultimately have same: "concat (take (Suc k) ls) = concat (take k ls)" by simp
    show False
    proof (cases k)
      case 0
      with e ne show False by simp
    next
      case (Suc i)
      with k(3) have "ct (concat (take (Suc i) ls)) + 1024 \<le> token_limit" by simp
      moreover from lt k(4) same Suc have "token_limit < ct (concat (take (Suc i) ls)) + 1024"
        by simp
      ultimately show False by simp
    qed
  qed
  with split k(2) show ?thesis by (simp add: strict_prefix_def prefix_def)
qed

lemma split_padded: "re_split_newlines ''  Hello\<newline>'' = [''  Hello'', ''\<newline>'', [] ]"
  by code_simp

lemma split_blank: "re_split_newlines '' \<newline> '' = ['' '', ''\<newline>'', '' '']"
  by code_simp

lemma split_two_lines: "re_split_newlines ''ab\<newline>cd'' = [''ab'', ''\<newline>'', ''cd'']"
  by code_simp

lemma buffer_blank: "fill_buffer count_chars [] ['' '', ''\<newline>'', '' ''] = '' \<newline> ''"
  by (simp add: count_chars_def token_limit_def Let_def)

lemma buffer_two_lines: "fill_buffer count_heavy [] [''ab'', ''\<newline>'', ''cd''] = ''ab\<newline>''"
  by (simp add: count_heavy_def token_limit_def Let_def)

lemma strip_examples:
  "strip ''  Hello\<newline>'' = ''Hello''" "strip '' \<newline> '' = []" "strip ''ab\<newline>'' = ''ab''"
  by (simp_all add: strip_def isspace_def)

text \<open>
  Claim C4, as the code has it. The pieces of the split (lines and the runs of line breaks
  between them) concatenate to the page content. The loop appends them in order and stops
  before the first piece with which the token count plus 1024 would exceed 32000. If
  every prefix of pieces fits, the loop ends with the full content; if some prefix does
  not and the content is not empty, it ends with a strict prefix of the content, made of
  whole pieces. The buffer that is tested and summarized is the result of the loop with
  the whitespace at both ends removed: when it is empty the tool returns
  \<open>Nothing to summarize.\<close> and the summarizer is not called, otherwise the summarizer
  is called once, with a prompt built on the stripped buffer.
\<close>

theorem read_page_buffer:
  assumes b1: "b1 = (case url of None \<Rightarrow> b
                     | Some u \<Rightarrow> if u \<noteq> address b then visit_page m b u else b)"
    and pieces: "pieces = re_split_newlines (page_content b1)"
    and loop: "loop_buffer = fill_buffer count_token [] pieces"
  shows "concat pieces = page_content b1
    \<and> (\<exists>k\<le>length pieces. loop_buffer = concat (take k pieces)
          \<and> (\<forall>j<k. count_token (concat (take (Suc j) pieces)) + 1024 \<le> token_limit)
          \<and> (k < length pieces \<longrightarrow>
                token_limit < count_token (concat (take (Suc k) pieces)) + 1024))
    \<and> ((\<forall>j<length pieces. count_token (concat (take (Suc j) pieces)) + 1024 \<le> token_limit)
          \<longrightarrow> loop_buffer = page_content b1)
    \<and> ((\<exists>j<length pieces. token_limit < count_token (concat (take (Suc j) pieces)) + 1024)
          \<and> page_content b1 \<noteq> []
          \<longrightarrow> strict_prefix loop_buffer (page_content b1))
    \<and> read_page_and_answer m count_token summarize b question url =
         (if strip loop_buffer = [] then (b1, [], ''Nothing to summarize.'')
          else (b1,
                [[summarizer_system_message,
                  [(''role'', Some ''user''),
                   (''content'', Some (summary_prompt question (strip loop_buffer)))]]],
                summarize [summarizer_system_message,
                  [(''role'', Some ''user''),
                   (''content'', Some (summary_prompt question (strip loop_buffer)))]]))"
proof (intro conjI impI)
  show c: "concat pieces = page_content b1"
    unfolding pieces by (rule concat_re_split_newlines)
  show "\<exists>k\<le>length pieces. loop_buffer = concat (take k pieces)
          \<and> (\<forall>j<k. count_token (concat (take (Suc j) pieces)) + 1024 \<le> token_limit)
          \<and> (k < length pieces \<longrightarrow>
                token_limit < count_token (concat (take (Suc k) pieces)) + 1024)"
    using fill_buffer_take [of pieces count_token "[]"] unfolding loop by simp
  {
    assume "\<forall>j<length pieces. count_token (concat (take (Suc j) pieces)) + 1024 \<le> token_limit"
    then have "fill_buffer count_token [] pieces = [] @ concat pieces"
      by (intro fill_buffer_all) simp
    with c show "loop_buffer = page_content b1" unfolding loop by simp
  }
  {
    assume a: "(\<exists>j<length pieces. token_limit < count_token (concat (take (Suc j) pieces)) + 1024)
          \<and> page_content b1 \<noteq> []"
    with c have "concat pieces \<noteq> []" by simp
    with a have "strict_prefix (fill_buffer count_token [] pieces) (concat pieces)"
      by (intro fill_buffer_strict) blast+
    with c show "strict_prefix loop_buffer (page_content b1)" unfolding loop by simp
  }
  show "read_page_and_answer m count_token summarize b question url =
         (if strip loop_buffer = [] then (b1, [], ''Nothing to summarize.'')
          else (b1,
                [[summarizer_system_message,
                  [(''role'', Some ''user''),
                   (''content'', Some (summary_prompt question (strip loop_buffer)))]]],
                summarize [summarizer_system_message,
                  [(''role'', Some ''user''),
                   (''content'', Some (summary_prompt question (strip loop_buffer)))]]))"
    unfolding read_page_and_answer_def loop pieces b1 by (simp add: Let_def)
qed

theorem read_page_buffer_witness:
  "read_page_and_answer example_methods count_chars fixed_summary blank_page None None =
     (blank_page, [], ''Nothing to summarize.'')
   \<and> fill_buffer count_chars [] (re_split_newlines (page_content padded_page))
       = page_content padded_page
   \<and> strict_prefix (fill_buffer count_heavy [] (re_split_newlines (page_content two_lines_page)))
        (page_content two_lines_page)
   \<and> fill_buffer count_heavy [] (re_split_newlines (page_content two_lines_page)) = ''ab\<newline>''"
proof -
  have pb: "page_content blank_page = '' \<newline> ''"
    by (simp add: blank_page_def example_browser_def)
  have pp: "page_content padded_page = ''  Hello\<newline>''"
    by (simp add: padded_page_def example_browser_def)
  have pt: "page_content two_lines_page = ''ab\<newline>cd''"
    by (simp add: two_lines_page_def example_browser_def)
  note t1 = read_page_buffer [where ?b1.0 = blank_page and url = None and b = blank_page
      and m = example_methods and pieces = "re_split_newlines (page_content blank_page)"
      and loop_buffer = "fill_buffer count_chars [] (re_split_newlines (page_content blank_page))"
      and count_token = count_chars and summarize = fixed_summary and question = None]
  have a: "read_page_and_answer example_methods count_chars fixed_summary blank_page None None =
     (blank_page, [], ''Nothing to summarize.'')"
    using t1 unfolding pb split_blank buffer_blank strip_examples by simp
  note t2 = read_page_buffer [where ?b1.0 = padded_page and url = None and b = padded_page
      and m = example_methods and pieces = "re_split_newlines (page_content padded_page)"
      and loop_buffer = "fill_buffer count_chars [] (re_split_newlines (page_content padded_page))"
      and count_token = count_chars and summarize = fixed_summary and question = None]
  have fit: "\<forall>j<length [''  Hello'', ''\<newline>'', [] ].
      count_chars (concat (take (Suc j) [''  Hello'', ''\<newline>'', [] ])) + 1024 \<le> token_limit"
    by (simp add: count_chars_def token_limit_def less_Suc_eq take_Suc_Cons)
  have b: "fill_buffer count_chars [] (re_split_newlines (page_content padded_page))
       = page_content padded_page"
    using t2 fit unfolding pp split_padded by simp
  note t3 = read_page_buffer [where ?b1.0 = two_lines_page and url = None and b = two_lines_page
      and m = example_methods and pieces = "re_split_newlines (page_content two_lines_page)"
      and loop_buffer = "fill_buffer count_heavy [] (re_split_newlines (page_content two_lines_page))"
      and count_token = count_heavy and summarize = fixed_summary and question = None]
  have over: "\<exists>j<length [''ab'', ''\<newline>'', ''cd''].
      token_limit < count_heavy (concat (take (Suc j) [''ab'', ''\<newline>'', ''cd''])) + 1024"
    by (intro exI [of _ 2]) (simp add: count_heavy_def token_limit_def)
  have c: "strict_prefix (fill_buffer count_heavy [] (re_split_newlines (page_content two_lines_page)))
        (page_content two_lines_page)"
    using t3 over unfolding pt split_two_lines by simp
  have d: "fill_buffer count_heavy [] (re_split_newlines (page_content two_lines_page)) = ''ab\<newline>''"
    unfolding pt split_two_lines by (rule buffer_two_lines)
  from a b c d show ?thesis by blast
qed

text \<open>
  The buffer summarized is not the full content even for a short page: the page
  \<open>"  Hello\\n"\<close> is far below the limit, and the prompt carries \<open>Hello\<close>.
\<close>

theorem read_page_buffer_counterexample:
  "count_chars (page_content padded_page) + 1024 \<le> token_limit
   \<and> read_page_and_answer example_methods count_chars fixed_summary padded_page None None =
       (padded_page,
        [[summarizer_system_message,
          [(''role'', Some ''user''),
           (''content'',
            Some (''Please summarize the following into one or two paragraph:\<newline>\<newline>'' @ ''Hello''))]]],
        ''summary'')
   \<and> ''Hello'' \<noteq> page_content padded_page"
proof -
  have pc: "page_content padded_page = ''  Hello\<newline>''"
    by (simp add: padded_page_def example_browser_def)
  have "read_page_and_answer example_methods count_chars fixed_summary padded_page None None =
       (padded_page,
        [[summarizer_system_message,
          [(''role'', Some ''user''),
           (''content'',
            Some (''Please summarize the following into one or two paragraph:\<newline>\<newline>'' @ ''Hello''))]]],
        ''summary'')"
    by (simp add: read_page_and_answer_def Let_def pc split_padded count_chars_def
        token_limit_def strip_def isspace_def summary_prompt_def fixed_summary_def)
  then show ?thesis unfolding pc by (simp add: count_chars_def token_limit_def)
qed


end
